theory Spec2Isabelle
  imports Complex_Main "HOL-Library.Sublist"
begin

section \<open>Calendar dates\<close>

text \<open>
  The analysis script works on pandas \<^verbatim>\<open>Timestamp\<close> values that all come from
  date-only strings (the \<^verbatim>\<open>Date\<close> column of a daily file and the literals
  \<^verbatim>\<open>'2016-01-01'\<close> of the phase table), so a timestamp is modelled at day resolution:
  the proleptic Gregorian day number, day 1 being 0001-01-01.  Comparison of timestamps
  is comparison of day numbers, a \<^verbatim>\<open>Timedelta\<close> is a number of days, and
  \<^verbatim>\<open>Timestamp - DateOffset(years=k)\<close> goes through the civil date: same month and
  day, \<open>k\<close> years earlier, the day clamped to the length of the month (29 February
  becomes 28 February).
\<close>

type_synonym ymd = "int \<times> int \<times> int"

type_synonym timestamp = int

definition is_leap :: "int \<Rightarrow> bool" where
  "is_leap y \<longleftrightarrow> y mod 4 = 0 \<and> (y mod 100 \<noteq> 0 \<or> y mod 400 = 0)"

definition days_before_year :: "int \<Rightarrow> int" where
  "days_before_year y = (y - 1) * 365 + (y - 1) div 4 - (y - 1) div 100 + (y - 1) div 400"

definition days_in_month :: "int \<Rightarrow> int \<Rightarrow> int" where
  "days_in_month y m =
     (if m = 2 then (if is_leap y then 29 else 28)
      else if m = 4 \<or> m = 6 \<or> m = 9 \<or> m = 11 then 30 else 31)"

definition days_before_month :: "int \<Rightarrow> int \<Rightarrow> int" where
  "days_before_month y m =
     [0, 31, 59, 90, 120, 151, 181, 212, 243, 273, 304, 334] ! nat (m - 1)
       + (if 2 < m \<and> is_leap y then 1 else 0)"

definition valid_ymd :: "ymd \<Rightarrow> bool" where
  "valid_ymd c =
     (case c of (y, m, d) \<Rightarrow> 1 \<le> m \<and> m \<le> 12 \<and> 1 \<le> d \<and> d \<le> days_in_month y m)"

text \<open>
  \<^verbatim>\<open>pd.to_datetime('YYYY-MM-DD')\<close> on a date literal, given as its three numbers.
  pandas raises on a literal that is not a calendar date; the model is meant for
  \<open>valid_ymd\<close> triples, which the four phases of the script are.
\<close>

definition to_datetime :: "ymd \<Rightarrow> timestamp" where
  "to_datetime c = (case c of (y, m, d) \<Rightarrow> days_before_year y + days_before_month y m + d)"

text \<open>
  The way back, from a day number to the civil date: the year is searched between a
  lower and an upper estimate, the month among the twelve.
\<close>

definition year_of :: "timestamp \<Rightarrow> int" where
  "year_of n =
     (let y0 = (if 1 \<le> n then (n - 1) div 366 + 1 else n div 365);
          y1 = (if 1 \<le> n then (n - 1) div 365 + 1 else 0)
      in case find (\<lambda>y. n \<le> days_before_year (y + 1)) [y0..y1] of
           Some y \<Rightarrow> y | None \<Rightarrow> y1)"

definition month_of :: "int \<Rightarrow> int \<Rightarrow> int" where
  "month_of y r =
     (case find (\<lambda>m. r \<le> days_before_month y (m + 1)) [1..11] of
        Some m \<Rightarrow> m | None \<Rightarrow> 12)"

definition civil :: "timestamp \<Rightarrow> ymd" where
  "civil n =
     (let y = year_of n; r = n - days_before_year y; m = month_of y r
      in (y, m, r - days_before_month y m))"

definition shift_years :: "int \<Rightarrow> ymd \<Rightarrow> ymd" where
  "shift_years k c = (case c of (y, m, d) \<Rightarrow> (y - k, m, min d (days_in_month (y - k) m)))"

text \<open>\<^verbatim>\<open>t - pd.DateOffset(years=k)\<close>.\<close>

definition minus_years :: "timestamp \<Rightarrow> int \<Rightarrow> timestamp" where
  "minus_years t k = to_datetime (shift_years k (civil t))"

definition ymd_less :: "ymd \<Rightarrow> ymd \<Rightarrow> bool" where
  "ymd_less c c' = (case (c, c') of ((y, m, d), (y', m', d')) \<Rightarrow>
     y < y' \<or> (y = y' \<and> (m < m' \<or> (m = m' \<and> d < d'))))"

section \<open>The data frame\<close>

text \<open>
  A row of \<^verbatim>\<open>city_day.csv\<close> after the columns \<^verbatim>\<open>PM2.5\<close> and \<^verbatim>\<open>NO2\<close> have been
  renamed.  A cell that is empty in the file is \<^verbatim>\<open>NaN\<close> in the frame and \<open>None\<close>
  here.  \<open>others\<close> holds the cells of every further column of the file (PM10, NO, ...,
  AQI, AQI\_Bucket in the published data set), which the script never reads but
  carries along.  Reading and parsing the file is pandas' work and is not modelled:
  a file is given by the rows it parses to.
\<close>

datatype cell = Num real | Str string

record row =
  City :: string
  Date :: timestamp
  pm25 :: "real option"
  no2 :: "real option"
  others :: "cell option list"

record labelled_row = row +
  policy_status :: string

type_synonym filesystem = "string \<Rightarrow> row list option"

text \<open>\<^verbatim>\<open>Series.ffill\<close>: a missing cell takes the last value seen above it, if any.\<close>

fun ffill_from :: "'a option \<Rightarrow> 'a option list \<Rightarrow> 'a option list" where
  "ffill_from prev [] = []"
| "ffill_from prev (None # xs) = prev # ffill_from prev xs"
| "ffill_from prev (Some v # xs) = Some v # ffill_from (Some v) xs"

definition ffill :: "'a option list \<Rightarrow> 'a option list" where
  "ffill xs = ffill_from None xs"

text \<open>
  \<^verbatim>\<open>df_delhi['pm25'].ffill(inplace=True)\<close> and the same on \<^verbatim>\<open>no2\<close>, as in the
  versions of pandas where the in-place call on a selected column writes through to the
  frame.  The fill runs down the rows in the order of the file: the script does not sort.
\<close>

definition ffill_pm25 :: "row list \<Rightarrow> row list" where
  "ffill_pm25 df = map2 (\<lambda>r v. r\<lparr>pm25 := v\<rparr>) df (ffill (map pm25 df))"

definition ffill_no2 :: "row list \<Rightarrow> row list" where
  "ffill_no2 df = map2 (\<lambda>r v. r\<lparr>no2 := v\<rparr>) df (ffill (map no2 df))"

text \<open>
  \<^verbatim>\<open>df_delhi.dropna(inplace=True)\<close>, called without \<^verbatim>\<open>subset\<close>: a row goes when any of
  its columns is missing.  \<^verbatim>\<open>City\<close> is never missing after the filter on it and
  \<^verbatim>\<open>Date\<close> is the index.
\<close>

definition has_nan :: "row \<Rightarrow> bool" where
  "has_nan r \<longleftrightarrow> pm25 r = None \<or> no2 r = None \<or> None \<in> set (others r)"

definition dropna :: "row list \<Rightarrow> row list" where
  "dropna df = filter (\<lambda>r. \<not> has_nan r) df"

definition leading_gap :: "'a option list \<Rightarrow> nat" where
  "leading_gap xs = length (takeWhile (\<lambda>x. x = None) xs)"

definition last_seen :: "'a option list \<Rightarrow> 'a option" where
  "last_seen xs = (case filter (\<lambda>x. x \<noteq> None) (rev xs) of [] \<Rightarrow> None | x # _ \<Rightarrow> x)"

section \<open>Policy windows\<close>

text \<open>
  The phase table of the script, in the order it is written (a Python dict iterates in
  insertion order): the name of a phase, its first and its last day.
\<close>

definition policy_periods :: "(string \<times> ymd \<times> ymd) list" where
  "policy_periods =
     [(''Phase 1'', (2016, 1, 1), (2016, 1, 15)),
      (''Phase 2'', (2016, 4, 15), (2016, 4, 30)),
      (''Phase 3'', (2017, 11, 13), (2017, 11, 17)),
      (''Phase 4'', (2019, 11, 4), (2019, 11, 15))]"

text \<open>
  The loop of \<^verbatim>\<open>get_policy_status\<close> over a phase table; \<open>stop\<close> is the script's
  \<^verbatim>\<open>end\<close>.
\<close>

fun get_policy_status_in :: "(string \<times> ymd \<times> ymd) list \<Rightarrow> timestamp \<Rightarrow> string" where
  "get_policy_status_in [] date = ''Normal Day''"
| "get_policy_status_in ((phase, s, e) # rest) date =
     (let start = to_datetime s; stop = to_datetime e; delta = stop - start in
      if start \<le> date \<and> date \<le> stop then ''During '' @ phase
      else if start - delta - 1 \<le> date \<and> date < start then ''Before '' @ phase
      else if minus_years start 1 \<le> date \<and> date \<le> minus_years stop 1
        then ''Control '' @ phase
      else get_policy_status_in rest date)"

definition get_policy_status :: "timestamp \<Rightarrow> string" where
  "get_policy_status date = get_policy_status_in policy_periods date"

text \<open>
  The windows as the design document words them, to compare the loop with: During is
  \<open>[start, end]\<close>, Before is \<open>[start - D - 1 day, start)\<close> with \<open>D = end - start\<close>,
  Control is \<open>[start - 1 year, end - 1 year]\<close>; they are declared phase by phase, and
  During, Before, Control within a phase.
\<close>

datatype window_kind = During | Before | Control

type_synonym window = "window_kind \<times> string \<times> ymd \<times> ymd"

fun window_bounds :: "window \<Rightarrow> timestamp \<times> timestamp" where
  "window_bounds (During, phase, s, e) = (to_datetime s, to_datetime e)"
| "window_bounds (Before, phase, s, e) =
     (to_datetime s - (to_datetime e - to_datetime s) - 1, to_datetime s - 1)"
| "window_bounds (Control, phase, s, e) =
     (minus_years (to_datetime s) 1, minus_years (to_datetime e) 1)"

fun in_window :: "window \<Rightarrow> timestamp \<Rightarrow> bool" where
  "in_window (During, phase, s, e) d \<longleftrightarrow> to_datetime s \<le> d \<and> d \<le> to_datetime e"
| "in_window (Before, phase, s, e) d \<longleftrightarrow>
     to_datetime s - (to_datetime e - to_datetime s) - 1 \<le> d \<and> d < to_datetime s"
| "in_window (Control, phase, s, e) d \<longleftrightarrow>
     minus_years (to_datetime s) 1 \<le> d \<and> d \<le> minus_years (to_datetime e) 1"

fun window_label :: "window \<Rightarrow> string" where
  "window_label (During, phase, s, e) = ''During '' @ phase"
| "window_label (Before, phase, s, e) = ''Before '' @ phase"
| "window_label (Control, phase, s, e) = ''Control '' @ phase"

fun windows_of :: "(string \<times> ymd \<times> ymd) list \<Rightarrow> window list" where
  "windows_of [] = []"
| "windows_of ((phase, s, e) # rest) =
     (During, phase, s, e) # (Before, phase, s, e) # (Control, phase, s, e) # windows_of rest"

definition first_match :: "(string \<times> ymd \<times> ymd) list \<Rightarrow> timestamp \<Rightarrow> string" where
  "first_match periods d =
     (case find (\<lambda>w. in_window w d) (windows_of periods) of
        None \<Rightarrow> ''Normal Day'' | Some w \<Rightarrow> window_label w)"

fun apart :: "(int \<times> int) list \<Rightarrow> bool" where
  "apart [] \<longleftrightarrow> True"
| "apart ((lo, hi) # rest) \<longleftrightarrow>
     list_all (\<lambda>(lo', hi'). hi < lo' \<or> hi' < lo) rest \<and> apart rest"

section \<open>The three steps of the script\<close>

text \<open>
  What the script prints, one constructor for each \<^verbatim>\<open>print\<close>, carrying the values
  that the line formats (the formatting of numbers is not modelled).
\<close>

datatype line =
    Loading string
  | File_not_found string
  | Hint_data_subfolder
  | Found_rows nat
  | Preparation_complete
  | Analysis_header string
  | Not_enough_data
  | Comparing string
  | Mean_during "real option"
  | Mean_control "real option"
  | P_value "real option"
  | Result_significant
  | Result_not_significant
  | Generating_visualizations

text \<open>
  The exceptions that the modelled paths raise.  \<^verbatim>\<open>sys.exit()\<close> raises
  \<^verbatim>\<open>SystemExit\<close> with the argument it was given, \<open>None\<close> when there is none; the
  interpreter ends the process with status 0 for \<open>None\<close>, with the number for a number,
  and with 1 for any other exception that nobody catches.
\<close>

datatype exn = SystemExit "int option" | IndexError

fun exit_status :: "exn \<Rightarrow> int" where
  "exit_status (SystemExit None) = 0"
| "exit_status (SystemExit (Some n)) = n"
| "exit_status IndexError = 1"

text \<open>
  \<^verbatim>\<open>df_delhi['policy_status'] = df_delhi.index.to_series().apply(get_policy_status)\<close>:
  every row gets the status of its date.
\<close>

definition label_rows :: "row list \<Rightarrow> labelled_row list" where
  "label_rows df =
     map (\<lambda>r. \<lparr>City = City r, Date = Date r, pm25 = pm25 r, no2 = no2 r, others = others r,
               policy_status = get_policy_status (Date r)\<rparr>) df"

text \<open>
  The cleaning steps of \<^verbatim>\<open>load_and_prepare_real_data\<close> on their own: the filter on the
  city, the two forward fills, the dropping of rows.
\<close>

definition clean :: "row list \<Rightarrow> row list" where
  "clean df = dropna (ffill_no2 (ffill_pm25 (filter (\<lambda>r. City r = ''Delhi'') df)))"

text \<open>
  \<^verbatim>\<open>load_and_prepare_real_data\<close>: the lines printed, and the labelled frame or the
  exception that ends the call.
\<close>

definition load_and_prepare_real_data ::
  "filesystem \<Rightarrow> string \<Rightarrow> line list \<times> (exn + labelled_row list)" where
  "load_and_prepare_real_data fs filepath =
     (case fs filepath of
        None \<Rightarrow>
          ([Loading filepath, File_not_found filepath, Hint_data_subfolder],
           Inl (SystemExit None))
      | Some df \<Rightarrow>
          (let df_delhi = filter (\<lambda>r. City r = ''Delhi'') df;
               cleaned = dropna (ffill_no2 (ffill_pm25 df_delhi))
           in ([Loading filepath, Found_rows (length df_delhi), Preparation_complete],
               Inr (label_rows cleaned))))"

text \<open>
  The state that the analysis step runs in: the frame the caller holds, the console,
  and the calls made to the rank-sum test of the statistics library, which is a
  function the model does not look into.  A float that is \<^verbatim>\<open>NaN\<close> is \<open>None\<close>, and
  every comparison with it is false.
\<close>

type_synonym sample = "real option list"

type_synonym rank_sum_test = "sample \<Rightarrow> sample \<Rightarrow> real option \<times> real option"

record session =
  frame :: "labelled_row list"
  console :: "line list"
  test_calls :: "(sample \<times> sample) list"

text \<open>\<^verbatim>\<open>Series.mean()\<close>: missing values are skipped; no value left gives \<^verbatim>\<open>NaN\<close>.\<close>

definition series_mean :: "sample \<Rightarrow> real option" where
  "series_mean xs =
     (let vs = List.map_filter (\<lambda>x. x) xs
      in if vs = [] then None else Some (sum_list vs / real (length vs)))"

definition during_data :: "labelled_row list \<Rightarrow> string \<Rightarrow> sample" where
  "during_data df phase = map pm25 (filter (\<lambda>r. policy_status r = ''During '' @ phase) df)"

definition control_data :: "labelled_row list \<Rightarrow> string \<Rightarrow> sample" where
  "control_data df phase = map pm25 (filter (\<lambda>r. policy_status r = ''Control '' @ phase) df)"

definition float_less :: "real option \<Rightarrow> real \<Rightarrow> bool" where
  "float_less p c = (case p of None \<Rightarrow> False | Some v \<Rightarrow> v < c)"

definition perform_statistical_analysis ::
  "rank_sum_test \<Rightarrow> string \<Rightarrow> session \<Rightarrow> session" where
  "perform_statistical_analysis mannwhitneyu phase s =
     (let s1 = s\<lparr>console := console s @ [Analysis_header phase]\<rparr>;
          during = during_data (frame s1) phase;
          control = control_data (frame s1) phase
      in if during = [] \<or> control = [] then s1\<lparr>console := console s1 @ [Not_enough_data]\<rparr>
         else
           (let (stat, p_value) = mannwhitneyu during control;
                s2 = s1\<lparr>test_calls := test_calls s1 @ [(during, control)]\<rparr>;
                s3 = s2\<lparr>console := console s2 @
                       [Comparing phase, Mean_during (series_mean during),
                        Mean_control (series_mean control), P_value p_value]\<rparr>
            in if float_less p_value 0.05
               then s3\<lparr>console := console s3 @ [Result_significant]\<rparr>
               else s3\<lparr>console := console s3 @ [Result_not_significant]\<rparr>))"

text \<open>
  \<^verbatim>\<open>create_visualizations\<close> up to the annotation of the first chart: the rows of the two
  groups, the period each falls in (by the test \<^verbatim>\<open>'During' in x\<close> on its status),
  the mean of each period, and the percent change.  \<^verbatim>\<open>.iloc[0]\<close> on a period that has
  no row raises \<^verbatim>\<open>IndexError\<close>.  The drawing itself is not modelled.  The result of the
  float arithmetic is \<open>None\<close> when it is not a finite number.
\<close>

definition period :: "labelled_row \<Rightarrow> string" where
  "period r =
     (if sublist ''During'' (policy_status r) then ''During Policy'' else ''Control (Prior Year)'')"

definition comp_df :: "labelled_row list \<Rightarrow> string \<Rightarrow> labelled_row list" where
  "comp_df df phase =
     filter (\<lambda>r. policy_status r = ''During '' @ phase \<or> policy_status r = ''Control '' @ phase) df"

definition period_mean :: "labelled_row list \<Rightarrow> string \<Rightarrow> exn + real option" where
  "period_mean cdf p =
     (case filter (\<lambda>r. period r = p) cdf of
        [] \<Rightarrow> Inl IndexError
      | rs \<Rightarrow> Inr (series_mean (map pm25 rs)))"

definition pct_change :: "real option \<Rightarrow> real option \<Rightarrow> real option" where
  "pct_change during_pm25 control_pm25 =
     (case (during_pm25, control_pm25) of
        (Some d, Some c) \<Rightarrow> if c = 0 then None else Some (((d - c) / c) * 100)
      | _ \<Rightarrow> None)"

definition create_visualizations :: "string \<Rightarrow> session \<Rightarrow> (exn + real option) \<times> session" where
  "create_visualizations phase s =
     (let s1 = s\<lparr>console := console s @ [Generating_visualizations]\<rparr>;
          cdf = comp_df (frame s1) phase
      in case period_mean cdf ''Control (Prior Year)'' of
           Inl e \<Rightarrow> (Inl e, s1)
         | Inr control_pm25 \<Rightarrow>
             (case period_mean cdf ''During Policy'' of
                Inl e \<Rightarrow> (Inl e, s1)
              | Inr during_pm25 \<Rightarrow> (Inr (pct_change during_pm25 control_pm25), s1)))"

text \<open>The main block: the console at the end of the run and the exit status.\<close>

definition main :: "filesystem \<Rightarrow> rank_sum_test \<Rightarrow> line list \<times> int" where
  "main fs mannwhitneyu =
     (case load_and_prepare_real_data fs ''data/city_day.csv'' of
        (out, Inl e) \<Rightarrow> (out, exit_status e)
      | (out, Inr processed_df) \<Rightarrow>
          (let s0 = \<lparr>frame = processed_df, console = out, test_calls = []\<rparr>;
               s1 = perform_statistical_analysis mannwhitneyu ''Phase 1'' s0
           in case create_visualizations ''Phase 1'' s1 of
                (Inl e, s2) \<Rightarrow> (console s2, exit_status e)
              | (Inr _, s2) \<Rightarrow> (console s2, 0)))"

section \<open>Example inputs\<close>

text \<open>
  Three small files of Delhi rows.  In \<open>gap_rows\<close> the two pollutant columns start
  with gaps of different lengths; in \<open>untracked_rows\<close> a further column of the file
  has an empty cell in the last row; \<open>sample_rows\<close> has a row of another city and no
  further column.
\<close>

definition gap_rows :: "row list" where
  "gap_rows =
     [\<lparr>City = ''Delhi'', Date = to_datetime (2015, 1, 1), pm25 = None, no2 = None, others = []\<rparr>,
      \<lparr>City = ''Delhi'', Date = to_datetime (2015, 1, 2), pm25 = Some 100, no2 = None, others = []\<rparr>,
      \<lparr>City = ''Delhi'', Date = to_datetime (2015, 1, 3), pm25 = Some 110, no2 = Some 30, others = []\<rparr>]"

definition untracked_rows :: "row list" where
  "untracked_rows =
     [\<lparr>City = ''Delhi'', Date = to_datetime (2015, 1, 1), pm25 = None, no2 = Some 30,
       others = [Some (Num 1)]\<rparr>,
      \<lparr>City = ''Delhi'', Date = to_datetime (2015, 1, 2), pm25 = Some 100, no2 = Some 31,
       others = [Some (Num 1)]\<rparr>,
      \<lparr>City = ''Delhi'', Date = to_datetime (2015, 1, 3), pm25 = Some 110, no2 = Some 32,
       others = [None]\<rparr>]"

definition sample_rows :: "row list" where
  "sample_rows =
     [\<lparr>City = ''Delhi'', Date = to_datetime (2015, 1, 1), pm25 = None, no2 = Some 30, others = []\<rparr>,
      \<lparr>City = ''Mumbai'', Date = to_datetime (2015, 1, 1), pm25 = Some 40, no2 = None, others = []\<rparr>,
      \<lparr>City = ''Delhi'', Date = to_datetime (2015, 1, 2), pm25 = Some 100, no2 = None, others = []\<rparr>,
      \<lparr>City = ''Delhi'', Date = to_datetime (2015, 1, 3), pm25 = None, no2 = Some 32, others = []\<rparr>]"

text \<open>
  A file whose Delhi rows are two days of Phase 1 and nothing from the year before, so
  that the Control sample of Phase 1 is empty.
\<close>

definition no_control_rows :: "row list" where
  "no_control_rows =
     [\<lparr>City = ''Delhi'', Date = to_datetime (2016, 1, 1), pm25 = Some 40, no2 = Some 30, others = []\<rparr>,
      \<lparr>City = ''Delhi'', Date = to_datetime (2016, 1, 2), pm25 = Some 60, no2 = Some 30, others = []\<rparr>]"

text \<open>
  A labelled frame with two days of Phase 1 (mean 50), the same two days a year
  earlier (mean 100) and one ordinary day, and a session that holds it.
\<close>

definition demo_frame :: "labelled_row list" where
  "demo_frame =
     [\<lparr>City = ''Delhi'', Date = to_datetime (2015, 1, 1), pm25 = Some 90, no2 = Some 30,
       others = [], policy_status = ''Control Phase 1''\<rparr>,
      \<lparr>City = ''Delhi'', Date = to_datetime (2015, 1, 2), pm25 = Some 110, no2 = Some 30,
       others = [], policy_status = ''Control Phase 1''\<rparr>,
      \<lparr>City = ''Delhi'', Date = to_datetime (2015, 6, 1), pm25 = Some 70, no2 = Some 30,
       others = [], policy_status = ''Normal Day''\<rparr>,
      \<lparr>City = ''Delhi'', Date = to_datetime (2016, 1, 1), pm25 = Some 40, no2 = Some 30,
       others = [], policy_status = ''During Phase 1''\<rparr>,
      \<lparr>City = ''Delhi'', Date = to_datetime (2016, 1, 2), pm25 = Some 60, no2 = Some 30,
       others = [], policy_status = ''During Phase 1''\<rparr>]"

definition demo_session :: session where
  "demo_session = \<lparr>frame = demo_frame, console = [], test_calls = []\<rparr>"

text \<open>A phase table of two phases whose During windows overlap from 10 to 15 January 2016.\<close>

definition overlapping_periods :: "(string \<times> ymd \<times> ymd) list" where
  "overlapping_periods =
     [(''A'', (2016, 1, 1), (2016, 1, 15)), (''B'', (2016, 1, 10), (2016, 1, 20))]"

section \<open>Facts about the calendar\<close>

lemma div_step:
  fixes y k :: int
  assumes "0 < k"
  shows "y div k = (y - 1) div k + (if y mod k = 0 then 1 else 0)"
proof (cases "y mod k = 0")
  case True
  have "y - 1 = k * (y div k - 1) + (k - 1)"
    using True by (simp add: algebra_simps) (metis mult_div_mod_eq add.right_neutral)
  moreover have "0 \<le> k - 1" "k - 1 < k" using assms by auto
  ultimately have "(y - 1) div k = y div k - 1"
    by (rule int_div_pos_eq)
  with True show ?thesis by simp
next
  case False
  have "y - 1 = k * (y div k) + (y mod k - 1)" by simp
  moreover have "0 \<le> y mod k - 1" "y mod k - 1 < k"
    using False assms pos_mod_sign [of k y] pos_mod_bound [of k y] by linarith+
  ultimately have "(y - 1) div k = y div k"
    by (rule int_div_pos_eq)
  with False show ?thesis by simp
qed

lemma mod_chain: "(y::int) mod 400 = 0 \<Longrightarrow> y mod 100 = 0" "(y::int) mod 100 = 0 \<Longrightarrow> y mod 4 = 0"
  using mod_mod_cancel [of 100 400 y] mod_mod_cancel [of 4 100 y] by simp_all

lemma days_before_year_step:
  "days_before_year (y + 1) = days_before_year y + (if is_leap y then 366 else 365)"
proof -
  define a where "a = (y - 1) div 4"
  define b where "b = (y - 1) div 100"
  define c where "c = (y - 1) div 400"
  have a: "y div 4 = a + (if y mod 4 = 0 then 1 else 0)"
    unfolding a_def by (rule div_step) simp
  have b: "y div 100 = b + (if y mod 100 = 0 then 1 else 0)"
    unfolding b_def by (rule div_step) simp
  have c: "y div 400 = c + (if y mod 400 = 0 then 1 else 0)"
    unfolding c_def by (rule div_step) simp
  have "days_before_year (y + 1) = y * 365 + y div 4 - y div 100 + y div 400"
    by (simp add: days_before_year_def)
  moreover have "days_before_year y = (y - 1) * 365 + a - b + c"
    by (simp add: days_before_year_def a_def b_def c_def)
  ultimately show ?thesis
    using mod_chain [of y] by (simp only: a b c is_leap_def split: if_splits) (auto simp: algebra_simps)
qed

lemma days_before_year_mono: "y \<le> y' \<Longrightarrow> days_before_year y \<le> days_before_year y'"
proof (induction "nat (y' - y)" arbitrary: y')
  case 0
  then show ?case by simp
next
  case (Suc k)
  then have "k = nat ((y' - 1) - y)" "y \<le> y' - 1" by linarith+
  then have "days_before_year y \<le> days_before_year (y' - 1)" using Suc.hyps(1) by blast
  also have "\<dots> \<le> days_before_year y'"
    using days_before_year_step [of "y' - 1"] by (simp split: if_splits)
  finally show ?case .
qed

lemma days_before_month_step:
  assumes "1 \<le> m" "m \<le> 11"
  shows "days_before_month y (m + 1) = days_before_month y m + days_in_month y m"
proof -
  from assms have "m = 1 \<or> m = 2 \<or> m = 3 \<or> m = 4 \<or> m = 5 \<or> m = 6 \<or> m = 7 \<or> m = 8 \<or> m = 9 \<or> m = 10 \<or> m = 11"
    by arith
  then show ?thesis
    by (elim disjE) (simp_all add: days_before_month_def days_in_month_def)
qed

lemma days_before_month_1: "days_before_month y 1 = 0"
  by (simp add: days_before_month_def)

lemma days_before_month_12:
  "days_before_month y 12 + days_in_month y 12 = (if is_leap y then 366 else 365)"
  by (simp add: days_before_month_def days_in_month_def)

lemma days_in_month_pos: "28 \<le> days_in_month y m"
  by (simp add: days_in_month_def)

lemma days_before_month_mono:
  assumes "1 \<le> m" "m \<le> m'" "m' \<le> 12"
  shows "days_before_month y m \<le> days_before_month y m'"
  using assms
proof (induction "nat (m' - m)" arbitrary: m')
  case 0
  then show ?case by simp
next
  case (Suc k)
  then have "k = nat ((m' - 1) - m)" "m \<le> m' - 1" "m' - 1 \<le> 12" "1 \<le> m' - 1" "m' - 1 \<le> 11" by linarith+
  then have "days_before_month y m \<le> days_before_month y (m' - 1)" using Suc.hyps(1) Suc.prems(1) by blast
  also have "\<dots> \<le> days_before_month y m'"
    using days_before_month_step [of "m' - 1" y] days_in_month_pos [of y "m' - 1"] \<open>1 \<le> m' - 1\<close> \<open>m' - 1 \<le> 11\<close> by simp
  finally show ?case .
qed

lemma leap_count_nonneg:
  fixes k :: int
  assumes "0 \<le> k"
  shows "k div 4 - k div 100 + k div 400 \<le> k"
proof -
  have "k div 400 \<le> k div 100" using assms by (intro zdiv_mono2) auto
  moreover have "k div 4 \<le> k" using zdiv_mono2 [of k 1 4] assms by simp
  ultimately show ?thesis by linarith
qed

lemma leap_count_neg:
  fixes k :: int
  assumes "k < 0"
  shows "k div 4 - k div 100 + k div 400 < 0"
proof -
  have "k div 4 \<le> k div 100" using assms by (intro zdiv_mono2_neg) auto
  moreover have "k div 400 < 0" using assms by (simp add: div_neg_pos_less0)
  ultimately show ?thesis by linarith
qed

lemma year_of_start:
  "days_before_year (if 1 \<le> n then (n - 1) div 366 + 1 else n div 365) < n"
proof (cases "1 \<le> n")
  case True
  define k where "k = (n - 1) div 366"
  have k: "0 \<le> k" "366 * k \<le> n - 1"
    using True by (simp_all add: k_def pos_imp_zdiv_nonneg_iff)
  have "days_before_year (k + 1) = k * 365 + (k div 4 - k div 100 + k div 400)"
    by (simp add: days_before_year_def)
  also have "\<dots> \<le> 366 * k" using leap_count_nonneg [OF k(1)] by linarith
  finally show ?thesis using k True by (simp add: k_def)
next
  case False
  define k where "k = n div 365 - 1"
  have k: "k < 0" "365 * (k + 1) \<le> n"
    using False by (simp_all add: k_def div_neg_pos_less0)
  have "days_before_year (k + 1) = k * 365 + (k div 4 - k div 100 + k div 400)"
    by (simp add: days_before_year_def)
  also have "\<dots> < 365 * k" using leap_count_neg [OF k(1)] by linarith
  finally show ?thesis using k False by (simp add: k_def)
qed

lemma year_of_stop:
  "n \<le> days_before_year ((if 1 \<le> n then (n - 1) div 365 + 1 else 0) + 1)"
proof (cases "1 \<le> n")
  case True
  define k where "k = (n - 1) div 365 + 1"
  have k: "0 \<le> k" "n \<le> 365 * k"
    using True by (simp_all add: k_def pos_imp_zdiv_nonneg_iff) 
  have "0 \<le> k div 4 - k div 100 + k div 400"
  proof -
    have "k div 100 \<le> k div 4" using k(1) by (intro zdiv_mono2) auto
    moreover have "0 \<le> k div 400" using k(1) by (simp add: pos_imp_zdiv_nonneg_iff)
    ultimately show ?thesis by linarith
  qed
  moreover have "days_before_year (k + 1) = k * 365 + (k div 4 - k div 100 + k div 400)"
    by (simp add: days_before_year_def)
  ultimately have "n \<le> days_before_year (k + 1)" using k by linarith
  then show ?thesis using True by (simp only: k_def if_True)
next
  case False
  then show ?thesis by (simp add: days_before_year_def)
qed

lemma year_of_spec:
  "days_before_year (year_of n) < n" "n \<le> days_before_year (year_of n + 1)"
proof -
  define y0 where "y0 = (if 1 \<le> n then (n - 1) div 366 + 1 else n div 365)"
  define y1 where "y1 = (if 1 \<le> n then (n - 1) div 365 + 1 else 0)"
  have y0: "days_before_year y0 < n" unfolding y0_def by (rule year_of_start)
  have y1: "n \<le> days_before_year (y1 + 1)" unfolding y1_def by (rule year_of_stop)
  have le: "y0 \<le> y1"
  proof (rule ccontr)
    assume "\<not> y0 \<le> y1"
    then have "days_before_year (y1 + 1) \<le> days_before_year y0"
      by (intro days_before_year_mono) simp
    with y0 y1 show False by simp
  qed
  have yo: "year_of n = (case find (\<lambda>y. n \<le> days_before_year (y + 1)) [y0..y1] of
           Some y \<Rightarrow> y | None \<Rightarrow> y1)"
    by (simp only: year_of_def y0_def y1_def Let_def)
  have "days_before_year (year_of n) < n \<and> n \<le> days_before_year (year_of n + 1)"
  proof (cases "find (\<lambda>y. n \<le> days_before_year (y + 1)) [y0..y1]")
    case None
    then have "\<not> n \<le> days_before_year (y1 + 1)"
      unfolding find_None_iff using le by simp
    with y1 show ?thesis by simp
  next
    case (Some y)
    then obtain i where i: "i < length [y0..y1]" "n \<le> days_before_year ([y0..y1] ! i + 1)"
      "y = [y0..y1] ! i" "\<forall>j<i. \<not> n \<le> days_before_year ([y0..y1] ! j + 1)"
      unfolding find_Some_iff by blast
    from i(1) have y: "y = y0 + int i" by (simp add: i(3))
    have "days_before_year y < n"
    proof (cases i)
      case 0
      with y y0 show ?thesis by simp
    next
      case (Suc j)
      with i(1,4) have "\<not> n \<le> days_before_year ([y0..y1] ! j + 1)" by simp
      moreover have "[y0..y1] ! j + 1 = y" using Suc i(1) y by simp
      ultimately show ?thesis by simp
    qed
    with i(2,3) Some show ?thesis by (simp add: yo)
  qed
  then show "days_before_year (year_of n) < n" "n \<le> days_before_year (year_of n + 1)"
    by simp_all
qed

lemma month_of_spec:
  assumes "1 \<le> r" "r \<le> (if is_leap y then 366 else 365)"
  shows "1 \<le> month_of y r \<and> month_of y r \<le> 12 \<and>
         days_before_month y (month_of y r) < r \<and>
         r \<le> days_before_month y (month_of y r) + days_in_month y (month_of y r)"
proof (cases "find (\<lambda>m. r \<le> days_before_month y (m + 1)) [1..11]")
  case None
  then have "\<not> r \<le> days_before_month y (11 + 1)"
    unfolding find_None_iff by (metis atLeastAtMost_iff one_le_numeral order_refl set_upto)
  with None assms days_before_month_12 [of y] show ?thesis
    by (simp add: month_of_def)
next
  case (Some m)
  then obtain i where i: "i < length [1..11::int]" "r \<le> days_before_month y ([1..11] ! i + 1)"
    "m = [1..11] ! i" "\<forall>j<i. \<not> r \<le> days_before_month y ([1..11] ! j + 1)"
    unfolding find_Some_iff by blast
  from i(1) have m: "m = 1 + int i" "1 \<le> m" "m \<le> 11"
    by (simp_all add: i(3))
  have "days_before_month y m < r"
  proof (cases i)
    case 0
    with m assms show ?thesis by (simp add: days_before_month_1)
  next
    case (Suc j)
    with i(1,4) have "\<not> r \<le> days_before_month y ([1..11] ! j + 1)" by simp
    moreover have "[1..11] ! j + 1 = m" using Suc i(1) m by simp
    ultimately show ?thesis by simp
  qed
  moreover have "r \<le> days_before_month y m + days_in_month y m"
    using i(2) days_before_month_step [OF m(2,3), of y] by (simp add: i(3))
  ultimately show ?thesis using m Some by (simp add: month_of_def)
qed

lemma civil_valid: "valid_ymd (civil n)"
proof -
  define y where "y = year_of n"
  define r where "r = n - days_before_year y"
  have r: "1 \<le> r" "r \<le> (if is_leap y then 366 else 365)"
    using year_of_spec [of n] days_before_year_step [of y] by (auto simp: r_def y_def)
  from month_of_spec [OF r] show ?thesis
    by (simp add: civil_def valid_ymd_def Let_def y_def [symmetric] r_def [symmetric])
qed

lemma to_datetime_civil: "to_datetime (civil n) = n"
  by (simp add: civil_def to_datetime_def Let_def)

lemma to_datetime_bounds:
  assumes "valid_ymd (y, m, d)"
  shows "days_before_year y < to_datetime (y, m, d)" "to_datetime (y, m, d) \<le> days_before_year (y + 1)"
proof -
  from assms have m: "1 \<le> m" "m \<le> 12" and d: "1 \<le> d" "d \<le> days_in_month y m"
    by (simp_all add: valid_ymd_def)
  have "0 \<le> days_before_month y m"
    using days_before_month_mono [of 1 m y] m by (simp add: days_before_month_1)
  with d show "days_before_year y < to_datetime (y, m, d)"
    by (simp add: to_datetime_def)
  have "days_before_month y m + days_in_month y m \<le> (if is_leap y then 366 else 365)"
  proof (cases "m = 12")
    case True
    then show ?thesis using days_before_month_12 [of y] by simp
  next
    case False
    with m have "m \<le> 11" by simp
    then have "days_before_month y m + days_in_month y m = days_before_month y (m + 1)"
      using days_before_month_step [of m y] m by simp
    also have "\<dots> \<le> days_before_month y 12"
      using days_before_month_mono [of "m + 1" 12 y] m \<open>m \<le> 11\<close> by simp
    also have "\<dots> \<le> (if is_leap y then 366 else 365)"
      using days_before_month_12 [of y] days_in_month_pos [of y 12] by (simp split: if_splits)
    finally show ?thesis .
  qed
  with d show "to_datetime (y, m, d) \<le> days_before_year (y + 1)"
    by (simp add: to_datetime_def days_before_year_step)
qed

lemma ymd_less_total: "ymd_less c c' \<or> c = c' \<or> ymd_less c' c"
  by (cases c; cases c') (auto simp: ymd_less_def)

lemma to_datetime_less:
  assumes "valid_ymd c" "valid_ymd c'" "ymd_less c c'"
  shows "to_datetime c < to_datetime c'"
proof -
  obtain y m d y' m' d' where c: "c = (y, m, d)" "c' = (y', m', d')"
    by (cases c; cases c') auto
  from assms(1,2) have v: "1 \<le> m" "m \<le> 12" "1 \<le> d" "d \<le> days_in_month y m"
      "1 \<le> m'" "m' \<le> 12" "1 \<le> d'" "d' \<le> days_in_month y' m'"
    by (simp_all add: valid_ymd_def c)
  consider "y < y'" | "y = y'" "m < m'" | "y = y'" "m = m'" "d < d'"
    using assms(3) by (auto simp: ymd_less_def c)
  then show ?thesis
  proof cases
    case 1
    have "to_datetime c \<le> days_before_year (y + 1)"
      using to_datetime_bounds(2) assms(1) by (simp add: c)
    also have "\<dots> \<le> days_before_year y'"
      using 1 by (intro days_before_year_mono) simp
    also have "\<dots> < to_datetime c'"
      using to_datetime_bounds(1) assms(2) by (simp add: c)
    finally show ?thesis .
  next
    case 2
    with v have "m \<le> 11" by simp
    have "days_before_month y m + d \<le> days_before_month y (m + 1)"
      using days_before_month_step [OF v(1) \<open>m \<le> 11\<close>, of y] v(4) by simp
    also have "\<dots> \<le> days_before_month y m'"
      using 2 v by (intro days_before_month_mono) simp_all
    finally show ?thesis using 2 v(7) by (simp add: to_datetime_def c)
  next
    case 3
    then show ?thesis by (simp add: to_datetime_def c)
  qed
qed

lemma to_datetime_inj:
  assumes "valid_ymd c" "valid_ymd c'" "to_datetime c = to_datetime c'"
  shows "c = c'"
  using ymd_less_total [of c c'] to_datetime_less [OF assms(1,2)] to_datetime_less [OF assms(2,1)] assms(3)
  by auto

lemma civil_to_datetime: "valid_ymd c \<Longrightarrow> civil (to_datetime c) = c"
  by (rule to_datetime_inj [OF civil_valid]) (simp_all add: to_datetime_civil)

lemma civil_mono: "n \<le> n' \<Longrightarrow> \<not> ymd_less (civil n') (civil n)"
  using to_datetime_less [OF civil_valid civil_valid, of n' n] by (auto simp: to_datetime_civil)

lemma shift_years_valid: "valid_ymd c \<Longrightarrow> valid_ymd (shift_years k c)"
proof (cases c)
  case (fields y m d)
  assume "valid_ymd c"
  then show ?thesis
    using days_in_month_pos [of "y - k" m] by (simp add: fields shift_years_def valid_ymd_def)
qed

lemma shift_years_mono:
  "\<not> ymd_less c' c \<Longrightarrow> \<not> ymd_less (shift_years k c') (shift_years k c)"
  by (cases c; cases c') (auto simp: ymd_less_def shift_years_def)

lemma minus_years_shift: "minus_years t k = to_datetime (shift_years k (civil t))"
  by (simp add: minus_years_def)

lemma minus_years_mono:
  assumes "t \<le> t'"
  shows "minus_years t k \<le> minus_years t' k"
proof -
  have "\<not> ymd_less (shift_years k (civil t')) (shift_years k (civil t))"
    using assms by (intro shift_years_mono civil_mono)
  then have "\<not> to_datetime (shift_years k (civil t')) < to_datetime (shift_years k (civil t))"
    using ymd_less_total [of "shift_years k (civil t)" "shift_years k (civil t')"]
      to_datetime_less [OF shift_years_valid shift_years_valid, OF civil_valid civil_valid, of k t k t']
    by auto
  then show ?thesis by (simp add: minus_years_shift)
qed

lemma minus_years_to_datetime:
  "valid_ymd (y, m, d) \<Longrightarrow>
     minus_years (to_datetime (y, m, d)) k = to_datetime (y - k, m, min d (days_in_month (y - k) m))"
  by (simp add: minus_years_def civil_to_datetime shift_years_def)

section \<open>Facts about the labelling loop\<close>

lemma find_append_skip:
  "\<forall>x\<in>set xs. \<not> P x \<Longrightarrow> find P (xs @ ys) = find P ys"
  by (induction xs) auto

lemma first_match_at:
  assumes "windows_of periods = earlier @ w # later"
    and "\<forall>w'\<in>set earlier. \<not> in_window w' d"
    and "in_window w d"
  shows "first_match periods d = window_label w"
  using assms by (simp add: first_match_def find_append_skip)

lemma first_match_none:
  assumes "\<forall>w\<in>set (windows_of periods). \<not> in_window w d"
  shows "first_match periods d = ''Normal Day''"
proof -
  have "find (\<lambda>w. in_window w d) (windows_of periods) = None"
    using assms by (simp add: find_None_iff)
  then show ?thesis by (simp add: first_match_def)
qed

lemma windows_of_append: "windows_of (ps @ qs) = windows_of ps @ windows_of qs"
  by (induction ps) auto

lemma status_first_match: "get_policy_status_in periods date = first_match periods date"
proof (induction periods)
  case Nil
  show ?case by (simp add: first_match_def)
next
  case (Cons p ps)
  obtain phase s e where p: "p = (phase, s, e)" by (cases p) auto
  from Cons.IH show ?case
    by (simp add: p first_match_def Let_def)
qed

lemma in_window_bounds:
  "in_window w d \<longleftrightarrow> fst (window_bounds w) \<le> d \<and> d \<le> snd (window_bounds w)"
  by (cases w rule: window_bounds.cases) auto

lemma is_leap_prev: "is_leap y \<Longrightarrow> \<not> is_leap (y - 1)"
proof -
  assume "is_leap y"
  then have "y mod 4 = 0" by (simp add: is_leap_def)
  then have "(y - 1) mod 4 = 3" by presburger
  then show ?thesis by (simp add: is_leap_def)
qed

lemma minus_one_year_civil:
  assumes "valid_ymd (y, m, d)"
  shows "minus_years (to_datetime (y, m, d)) 1 = to_datetime (y - 1, m, if m = 2 \<and> d = 29 then 28 else d)"
proof -
  have "min d (days_in_month (y - 1) m) = (if m = 2 \<and> d = 29 then 28 else d)"
    using assms is_leap_prev [of y]
    by (auto simp: valid_ymd_def days_in_month_def split: if_splits)
  then show ?thesis using minus_years_to_datetime [OF assms, of 1] by simp
qed

lemma status_skip:
  "\<forall>w\<in>set (windows_of ps). \<not> in_window w d \<Longrightarrow>
     get_policy_status_in (ps @ qs) d = get_policy_status_in qs d"
  by (induction ps) (auto simp: Let_def)

lemma apart_at_most_one:
  "apart bs \<Longrightarrow> length (filter (\<lambda>b. fst b \<le> d \<and> d \<le> snd b) bs) \<le> 1"
proof (induction bs)
  case Nil
  show ?case by simp
next
  case (Cons b bs)
  obtain lo hi where b: "b = (lo, hi)" by (cases b) auto
  from Cons.prems have far: "\<forall>b'\<in>set bs. hi < fst b' \<or> snd b' < lo" and rest: "apart bs"
    by (auto simp: b list_all_iff)
  show ?case
  proof (cases "lo \<le> d \<and> d \<le> hi")
    case True
    with far have "\<forall>b'\<in>set bs. \<not> (fst b' \<le> d \<and> d \<le> snd b')" by fastforce
    then have "filter (\<lambda>b. fst b \<le> d \<and> d \<le> snd b) bs = []" by (simp add: filter_empty_conv)
    with True show ?thesis by (simp add: b)
  next
    case False
    then have "filter (\<lambda>b. fst b \<le> d \<and> d \<le> snd b) (b # bs) =
        filter (\<lambda>b. fst b \<le> d \<and> d \<le> snd b) bs"
      by (auto simp: b)
    with Cons.IH [OF rest] show ?thesis by simp
  qed
qed

lemma windows_at_most_one:
  assumes "apart (map window_bounds ws)"
  shows "length (filter (\<lambda>w. in_window w d) ws) \<le> 1"
proof -
  have "length (filter (\<lambda>w. in_window w d) ws) =
      length (filter (\<lambda>b. fst b \<le> d \<and> d \<le> snd b) (map window_bounds ws))"
    by (simp add: filter_map comp_def in_window_bounds)
  with apart_at_most_one [OF assms, of d] show ?thesis by simp
qed

lemma find_unique:
  "length (filter P xs) \<le> 1 \<Longrightarrow> x \<in> set xs \<Longrightarrow> P x \<Longrightarrow> find P xs = Some x"
proof (induction xs)
  case Nil
  then show ?case by simp
next
  case (Cons y ys)
  show ?case
  proof (cases "P y")
    case True
    with Cons.prems(1) have "filter P ys = []" by simp
    with Cons.prems(2,3) have "x = y" by (auto simp: filter_empty_conv)
    with True show ?thesis by simp
  next
    case False
    with Cons show ?thesis by auto
  qed
qed

lemma policy_windows_apart: "apart (map window_bounds (windows_of policy_periods))"
  by code_simp

lemma policy_periods_valid:
  "list_all (\<lambda>(phase, s, e). valid_ymd s \<and> valid_ymd e \<and> to_datetime s \<le> to_datetime e)
     policy_periods"
  by code_simp

section \<open>Facts about forward fill and the dropping of rows\<close>

lemma length_ffill_from: "length (ffill_from p xs) = length xs"
  by (induction p xs rule: ffill_from.induct) auto

lemma length_ffill: "length (ffill xs) = length xs"
  by (simp add: ffill_def length_ffill_from)

lemma last_seen_Nil: "last_seen [] = None"
  by (simp add: last_seen_def)

lemma last_seen_Cons:
  "last_seen (x # xs) = (case last_seen xs of None \<Rightarrow> x | Some v \<Rightarrow> Some v)"
proof (cases "filter (\<lambda>x. x \<noteq> None) (rev xs)")
  case Nil
  then show ?thesis by (cases x) (simp_all add: last_seen_def)
next
  case (Cons a as)
  then have "a \<in> set (filter (\<lambda>x. x \<noteq> None) (rev xs))" by simp
  then have "a \<noteq> None" by simp
  with Cons show ?thesis by (auto simp: last_seen_def)
qed

lemma ffill_from_nth:
  "i < length xs \<Longrightarrow>
     ffill_from p xs ! i = (case last_seen (take (Suc i) xs) of None \<Rightarrow> p | Some v \<Rightarrow> Some v)"
proof (induction p xs arbitrary: i rule: ffill_from.induct)
  case (1 prev)
  then show ?case by simp
next
  case (2 prev xs)
  then show ?case
    by (cases i) (auto simp: last_seen_Cons last_seen_Nil split: option.splits)
next
  case (3 prev v xs)
  then show ?case
    by (cases i) (auto simp: last_seen_Cons last_seen_Nil split: option.splits)
qed

lemma ffill_nth: "i < length xs \<Longrightarrow> ffill xs ! i = last_seen (take (Suc i) xs)"
  by (simp add: ffill_def ffill_from_nth split: option.splits)

lemma last_seen_None_iff: "last_seen xs = None \<longleftrightarrow> (\<forall>x\<in>set xs. x = None)"
  by (induction xs) (auto simp: last_seen_Nil last_seen_Cons split: option.splits)

lemma take_all_None_iff:
  "i < length xs \<Longrightarrow> (\<forall>x\<in>set (take (Suc i) xs). x = None) \<longleftrightarrow> i < leading_gap xs"
proof (induction xs arbitrary: i)
  case Nil
  then show ?case by simp
next
  case (Cons x xs)
  then show ?case by (cases i) (auto simp: leading_gap_def)
qed

lemma ffill_None_iff: "i < length xs \<Longrightarrow> ffill xs ! i = None \<longleftrightarrow> i < leading_gap xs"
  by (simp add: ffill_nth last_seen_None_iff take_all_None_iff)

lemma last_seen_own:
  "i < length xs \<Longrightarrow> xs ! i = Some v \<Longrightarrow> last_seen (take (Suc i) xs) = Some v"
proof (induction xs arbitrary: i)
  case Nil
  then show ?case by simp
next
  case (Cons x xs)
  then show ?case
    by (cases i) (auto simp: last_seen_Cons last_seen_Nil split: option.splits)
qed

lemma length_ffill_pm25: "length (ffill_pm25 df) = length df"
  by (simp add: ffill_pm25_def length_ffill)

lemma length_ffill_no2: "length (ffill_no2 df) = length df"
  by (simp add: ffill_no2_def length_ffill)

lemma ffill_pm25_nth:
  "i < length df \<Longrightarrow> ffill_pm25 df ! i = (df ! i)\<lparr>pm25 := last_seen (take (Suc i) (map pm25 df))\<rparr>"
  by (simp add: ffill_pm25_def length_ffill ffill_nth)

lemma ffill_no2_nth:
  "i < length df \<Longrightarrow> ffill_no2 df ! i = (df ! i)\<lparr>no2 := last_seen (take (Suc i) (map no2 df))\<rparr>"
  by (simp add: ffill_no2_def length_ffill ffill_nth)

lemma map_no2_ffill_pm25: "map no2 (ffill_pm25 df) = map no2 df"
  by (rule nth_equalityI) (simp_all add: length_ffill_pm25 ffill_pm25_nth)

lemma filled_nth:
  "i < length df \<Longrightarrow>
     ffill_no2 (ffill_pm25 df) ! i =
       (df ! i)\<lparr>pm25 := last_seen (take (Suc i) (map pm25 df)),
                 no2 := last_seen (take (Suc i) (map no2 df))\<rparr>"
  by (simp add: ffill_no2_nth length_ffill_pm25 map_no2_ffill_pm25 ffill_pm25_nth)

lemma filter_eq_drop:
  "(\<forall>i<length xs. P (xs ! i) \<longleftrightarrow> k \<le> i) \<Longrightarrow> filter P xs = drop k xs"
proof (induction xs arbitrary: k)
  case Nil
  show ?case by simp
next
  case (Cons x xs)
  show ?case
  proof (cases k)
    case 0
    with Cons.prems have "\<forall>y\<in>set (x # xs). P y"
      by (metis in_set_conv_nth le0)
    with 0 show ?thesis by simp
  next
    case (Suc k')
    from Cons.prems [rule_format, of 0] Suc have "\<not> P x" by simp
    moreover have "\<forall>i<length xs. P (xs ! i) \<longleftrightarrow> k' \<le> i"
      using Cons.prems [rule_format, of "Suc i" for i] Suc by simp
    ultimately show ?thesis using Cons.IH [of k'] Suc by simp
  qed
qed

lemma has_nan_filled:
  assumes "i < length df"
  shows "has_nan (ffill_no2 (ffill_pm25 df) ! i) \<longleftrightarrow>
     i < leading_gap (map pm25 df) \<or> i < leading_gap (map no2 df) \<or> None \<in> set (others (df ! i))"
proof -
  have "last_seen (take (Suc i) (map pm25 df)) = None \<longleftrightarrow> i < leading_gap (map pm25 df)"
    using assms ffill_None_iff [of i "map pm25 df"] by (simp add: ffill_nth)
  moreover have "last_seen (take (Suc i) (map no2 df)) = None \<longleftrightarrow> i < leading_gap (map no2 df)"
    using assms ffill_None_iff [of i "map no2 df"] by (simp add: ffill_nth)
  ultimately show ?thesis using assms by (simp add: has_nan_def filled_nth)
qed

lemma load_and_prepare_clean:
  "fs filepath = Some df \<Longrightarrow>
     snd (load_and_prepare_real_data fs filepath) = Inr (label_rows (clean df))"
  by (simp add: load_and_prepare_real_data_def clean_def Let_def)

lemma prepared_no_missing:
  "r \<in> set (label_rows (clean df)) \<Longrightarrow> pm25 r \<noteq> None \<and> no2 r \<noteq> None \<and> None \<notin> set (others r)"
  by (auto simp: label_rows_def clean_def dropna_def has_nan_def)

section \<open>Facts about the analysis and the run\<close>

lemma analysis_empty:
  assumes "during_data (frame s) phase = [] \<or> control_data (frame s) phase = []"
  shows "perform_statistical_analysis mannwhitneyu phase s =
           s\<lparr>console := console s @ [Analysis_header phase, Not_enough_data]\<rparr>"
  using assms by (auto simp: perform_statistical_analysis_def Let_def)

lemma analysis_nonempty:
  assumes "during_data (frame s) phase \<noteq> []" "control_data (frame s) phase \<noteq> []"
  shows "perform_statistical_analysis mannwhitneyu phase s =
           s\<lparr>test_calls := test_calls s @ [(during_data (frame s) phase, control_data (frame s) phase)],
             console := console s @
               [Analysis_header phase, Comparing phase,
                Mean_during (series_mean (during_data (frame s) phase)),
                Mean_control (series_mean (control_data (frame s) phase)),
                P_value (snd (mannwhitneyu (during_data (frame s) phase) (control_data (frame s) phase))),
                if float_less (snd (mannwhitneyu (during_data (frame s) phase) (control_data (frame s) phase))) 0.05
                then Result_significant else Result_not_significant]\<rparr>"
  using assms by (simp add: perform_statistical_analysis_def Let_def split: prod.splits)

lemma frame_analysis: "frame (perform_statistical_analysis mannwhitneyu phase s) = frame s"
  by (cases "during_data (frame s) phase = [] \<or> control_data (frame s) phase = []")
     (simp_all add: analysis_empty analysis_nonempty)

lemma series_mean_Some_nonempty: "series_mean xs = Some m \<Longrightarrow> xs \<noteq> []"
  by (auto simp: series_mean_def List.map_filter_simps)

lemma series_mean_present:
  "vs \<noteq> [] \<Longrightarrow> series_mean (map Some vs) = Some (sum_list vs / real (length vs))"
proof -
  have "List.map_filter (\<lambda>x. x) (map Some vs) = vs"
    by (induction vs) (simp_all add: List.map_filter_simps)
  then show "vs \<noteq> [] \<Longrightarrow> ?thesis" by (simp add: series_mean_def)
qed

lemma period_during: "policy_status r = ''During '' @ phase \<Longrightarrow> period r = ''During Policy''"
proof -
  assume "policy_status r = ''During '' @ phase"
  moreover have "prefix ''During'' (''During '' @ phase)" by simp
  ultimately have "sublist ''During'' (policy_status r)"
    by (simp only: prefix_imp_sublist)
  then show ?thesis by (simp add: period_def)
qed

lemma no_during_in_control:
  "phase \<in> set (map fst policy_periods) \<Longrightarrow> \<not> sublist ''During'' (''Control '' @ phase)"
  unfolding policy_periods_def by (auto simp: sublist_code)

lemma period_control:
  "phase \<in> set (map fst policy_periods) \<Longrightarrow> policy_status r = ''Control '' @ phase \<Longrightarrow>
     period r = ''Control (Prior Year)''"
  using no_during_in_control [of phase] by (simp add: period_def)

lemma comp_df_control:
  assumes "phase \<in> set (map fst policy_periods)"
  shows "filter (\<lambda>r. period r = ''Control (Prior Year)'') (comp_df df phase) =
         filter (\<lambda>r. policy_status r = ''Control '' @ phase) df"
  unfolding comp_df_def filter_filter
  using period_during period_control [OF assms] by (intro filter_cong refl) auto

lemma comp_df_during:
  assumes "phase \<in> set (map fst policy_periods)"
  shows "filter (\<lambda>r. period r = ''During Policy'') (comp_df df phase) =
         filter (\<lambda>r. policy_status r = ''During '' @ phase) df"
  unfolding comp_df_def filter_filter
  using period_during period_control [OF assms] by (intro filter_cong refl) auto

lemma period_mean_control:
  assumes "phase \<in> set (map fst policy_periods)"
  shows "period_mean (comp_df df phase) ''Control (Prior Year)'' =
     (if control_data df phase = [] then Inl IndexError else Inr (series_mean (control_data df phase)))"
  by (simp add: period_mean_def comp_df_control [OF assms] control_data_def split: list.splits)

lemma period_mean_during:
  assumes "phase \<in> set (map fst policy_periods)"
  shows "period_mean (comp_df df phase) ''During Policy'' =
     (if during_data df phase = [] then Inl IndexError else Inr (series_mean (during_data df phase)))"
  by (simp add: period_mean_def comp_df_during [OF assms] during_data_def split: list.splits)

lemma create_visualizations_eq:
  assumes "phase \<in> set (map fst policy_periods)"
  shows "create_visualizations phase s =
     (if control_data (frame s) phase = [] \<or> during_data (frame s) phase = [] then Inl IndexError
      else Inr (pct_change (series_mean (during_data (frame s) phase))
                           (series_mean (control_data (frame s) phase))),
      s\<lparr>console := console s @ [Generating_visualizations]\<rparr>)"
  by (simp add: create_visualizations_def Let_def period_mean_control [OF assms]
      period_mean_during [OF assms])

lemma phase_1_configured: "''Phase 1'' \<in> set (map fst policy_periods)"
  by (simp add: policy_periods_def)

lemma main_loaded:
  assumes "fs ''data/city_day.csv'' = Some df"
  shows "main fs mannwhitneyu =
     (let s0 = \<lparr>frame = label_rows (clean df),
                 console = [Loading ''data/city_day.csv'',
                            Found_rows (length (filter (\<lambda>r. City r = ''Delhi'') df)),
                            Preparation_complete],
                 test_calls = []\<rparr>;
          s1 = perform_statistical_analysis mannwhitneyu ''Phase 1'' s0
      in case create_visualizations ''Phase 1'' s1 of
           (Inl e, s2) \<Rightarrow> (console s2, exit_status e)
         | (Inr x, s2) \<Rightarrow> (console s2, 0))"
  using assms by (simp add: main_def load_and_prepare_real_data_def clean_def Let_def)

text \<open>
  With an empty sample for Phase 1 the analysis step returns, the visualisation step
  starts, and its \<^verbatim>\<open>.iloc[0]\<close> on the period without rows raises \<^verbatim>\<open>IndexError\<close>, which
  ends the run with status 1.
\<close>

lemma main_empty_sample:
  assumes "fs ''data/city_day.csv'' = Some df"
    and "during_data (label_rows (clean df)) ''Phase 1'' = [] \<or>
         control_data (label_rows (clean df)) ''Phase 1'' = []"
  shows "main fs mannwhitneyu =
     ([Loading ''data/city_day.csv'', Found_rows (length (filter (\<lambda>r. City r = ''Delhi'') df)),
       Preparation_complete, Analysis_header ''Phase 1'', Not_enough_data,
       Generating_visualizations], 1)"
proof -
  let ?s0 = "\<lparr>frame = label_rows (clean df),
                 console = [Loading ''data/city_day.csv'',
                            Found_rows (length (filter (\<lambda>r. City r = ''Delhi'') df)),
                            Preparation_complete],
                 test_calls = []\<rparr>"
  have a: "perform_statistical_analysis mannwhitneyu ''Phase 1'' ?s0 =
      ?s0\<lparr>console := console ?s0 @ [Analysis_header ''Phase 1'', Not_enough_data]\<rparr>"
    by (rule analysis_empty) (use assms(2) in simp)
  show ?thesis
    unfolding main_loaded [of fs df, OF assms(1)] Let_def a
    using assms(2) by (auto simp: create_visualizations_eq [OF phase_1_configured])
qed

lemma demo_during: "during_data (frame demo_session) ''Phase 1'' = [Some 40, Some 60]"
  by (simp add: demo_session_def demo_frame_def during_data_def)

lemma demo_control: "control_data (frame demo_session) ''Phase 1'' = [Some 90, Some 110]"
  by (simp add: demo_session_def demo_frame_def control_data_def)

lemma demo_means:
  "series_mean [Some 40, Some 60] = Some 50" "series_mean [Some 90, Some 110] = Some 100"
  by (simp_all add: series_mean_def List.map_filter_simps)

lemma demo_tail:
  "during_data (tl demo_frame) ''Phase 1'' = [Some 40, Some 60]"
  "control_data (tl demo_frame) ''Phase 1'' = [Some 110]"
  "series_mean [Some 110] = Some 110"
  by (simp_all add: demo_frame_def during_data_def control_data_def series_mean_def
      List.map_filter_simps)

lemma no_control_status:
  "get_policy_status (to_datetime (2016, 1, 1)) = ''During Phase 1''"
  "get_policy_status (to_datetime (2016, 1, 2)) = ''During Phase 1''"
  by code_simp+

lemma no_control_prepared:
  "label_rows (clean no_control_rows) =
     [\<lparr>City = ''Delhi'', Date = to_datetime (2016, 1, 1), pm25 = Some 40, no2 = Some 30,
       others = [], policy_status = ''During Phase 1''\<rparr>,
      \<lparr>City = ''Delhi'', Date = to_datetime (2016, 1, 2), pm25 = Some 60, no2 = Some 30,
       others = [], policy_status = ''During Phase 1''\<rparr>]"
  by (simp add: no_control_rows_def clean_def dropna_def has_nan_def ffill_no2_def ffill_pm25_def
      ffill_def label_rows_def no_control_status)

section \<open>Labelling\<close>

text \<open>
  C4.  The labelling function assigns to every date exactly one status, by first match:
  the label of the first window, in declaration order (phase by phase; During, Before,
  Control within a phase), that contains the date, and "Normal Day" when none does.  A
  date that lies in the windows of several phases takes the label of the earliest one,
  whatever the later windows are; no error is raised.  This holds for any phase table,
  and so for the one of the script.
\<close>

theorem get_policy_status_first_match:
  "get_policy_status_in periods date = first_match periods date \<and>
   get_policy_status date = first_match policy_periods date \<and>
   (\<forall>earlier w later.
      windows_of periods = earlier @ w # later \<and> (\<forall>w'\<in>set earlier. \<not> in_window w' date) \<and>
      in_window w date \<longrightarrow> get_policy_status_in periods date = window_label w) \<and>
   ((\<forall>w\<in>set (windows_of periods). \<not> in_window w date) \<longrightarrow>
      get_policy_status_in periods date = ''Normal Day'')"
proof -
  have loop: "get_policy_status_in ps date = first_match ps date" for ps
  proof (induction ps)
    case Nil
    show ?case by (simp add: first_match_def)
  next
    case (Cons p ps)
    obtain phase s e where p: "p = (phase, s, e)" by (cases p) auto
    from Cons.IH show ?case
      by (simp add: p first_match_def Let_def)
  qed
  have "first_match periods date = window_label w"
    if "windows_of periods = earlier @ w # later \<and> (\<forall>w'\<in>set earlier. \<not> in_window w' date) \<and>
      in_window w date" for earlier w later
    using that first_match_at [of periods earlier w later date] by blast
  moreover have "first_match periods date = ''Normal Day''"
    if "\<forall>w\<in>set (windows_of periods). \<not> in_window w date"
    using that by (rule first_match_none)
  ultimately show ?thesis
    unfolding get_policy_status_def loop by blast
qed

text \<open>
  The same on a table of two phases that overlap: 12 January 2016 lies in the During
  window of both and takes the label of the one declared first; 1 June 2016 lies in no
  window.
\<close>

theorem get_policy_status_first_match_witness:
  "in_window (During, ''A'', (2016, 1, 1), (2016, 1, 15)) (to_datetime (2016, 1, 12)) \<and>
   in_window (During, ''B'', (2016, 1, 10), (2016, 1, 20)) (to_datetime (2016, 1, 12)) \<and>
   get_policy_status_in overlapping_periods (to_datetime (2016, 1, 12)) = ''During A'' \<and>
   get_policy_status_in overlapping_periods (to_datetime (2016, 6, 1)) = ''Normal Day''"
proof -
  have w: "windows_of overlapping_periods =
      [] @ (During, ''A'', (2016, 1, 1), (2016, 1, 15)) #
        [(Before, ''A'', (2016, 1, 1), (2016, 1, 15)), (Control, ''A'', (2016, 1, 1), (2016, 1, 15)),
         (During, ''B'', (2016, 1, 10), (2016, 1, 20)), (Before, ''B'', (2016, 1, 10), (2016, 1, 20)),
         (Control, ''B'', (2016, 1, 10), (2016, 1, 20))]"
    by (simp add: overlapping_periods_def)
  have a: "in_window (During, ''A'', (2016, 1, 1), (2016, 1, 15)) (to_datetime (2016, 1, 12))"
    by code_simp
  have b: "in_window (During, ''B'', (2016, 1, 10), (2016, 1, 20)) (to_datetime (2016, 1, 12))"
    by code_simp
  have n: "\<forall>w\<in>set (windows_of overlapping_periods). \<not> in_window w (to_datetime (2016, 6, 1))"
    by code_simp
  note t = get_policy_status_first_match [of overlapping_periods "to_datetime (2016, 1, 12)"]
  note u = get_policy_status_first_match [of overlapping_periods "to_datetime (2016, 6, 1)"]
  have h: "windows_of overlapping_periods =
      [] @ (During, ''A'', (2016, 1, 1), (2016, 1, 15)) #
        [(Before, ''A'', (2016, 1, 1), (2016, 1, 15)), (Control, ''A'', (2016, 1, 1), (2016, 1, 15)),
         (During, ''B'', (2016, 1, 10), (2016, 1, 20)), (Before, ''B'', (2016, 1, 10), (2016, 1, 20)),
         (Control, ''B'', (2016, 1, 10), (2016, 1, 20))] \<and>
      (\<forall>w'\<in>set []. \<not> in_window w' (to_datetime (2016, 1, 12))) \<and>
      in_window (During, ''A'', (2016, 1, 1), (2016, 1, 15)) (to_datetime (2016, 1, 12))"
    using w a by simp
  have "get_policy_status_in overlapping_periods (to_datetime (2016, 1, 12)) =
      window_label (During, ''A'', (2016, 1, 1), (2016, 1, 15))"
    by (rule t [THEN conjunct2, THEN conjunct2, THEN conjunct1, THEN spec, THEN spec, THEN spec,
          THEN mp, OF h])
  moreover have "get_policy_status_in overlapping_periods (to_datetime (2016, 6, 1)) = ''Normal Day''"
    by (rule u [THEN conjunct2, THEN conjunct2, THEN conjunct2, THEN mp, OF n])
  ultimately show ?thesis using a b by simp
qed

text \<open>
  C6.  The Before window of a phase is the half-open interval from \<open>start - D - 1\<close> day
  up to, and without, \<open>start\<close>, where \<open>D = end - start\<close>: every date of it that no
  earlier-declared window claims is labelled "Before"; in particular the day before
  \<open>start\<close> is, while \<open>start\<close> itself is labelled "During".  (A phase ends no earlier
  than it starts.)
\<close>

theorem before_window_half_open:
  assumes "periods = ps @ (phase, s, e) # qs"
    and "to_datetime s \<le> to_datetime e"
  shows "((\<forall>w\<in>set (windows_of ps). \<not> in_window w (to_datetime s - 1)) \<longrightarrow>
            get_policy_status_in periods (to_datetime s - 1) = ''Before '' @ phase) \<and>
         ((\<forall>w\<in>set (windows_of ps). \<not> in_window w (to_datetime s)) \<longrightarrow>
            get_policy_status_in periods (to_datetime s) = ''During '' @ phase) \<and>
         (\<forall>d. (\<forall>w\<in>set (windows_of ps). \<not> in_window w d) \<and>
              to_datetime s - (to_datetime e - to_datetime s) - 1 \<le> d \<and> d < to_datetime s \<longrightarrow>
            get_policy_status_in periods d = ''Before '' @ phase)"
proof -
  have during: "windows_of periods = windows_of ps @ (During, phase, s, e) #
      ((Before, phase, s, e) # (Control, phase, s, e) # windows_of qs)"
    by (simp add: assms(1) windows_of_append)
  have before: "windows_of periods = (windows_of ps @ [(During, phase, s, e)]) @ (Before, phase, s, e) #
      ((Control, phase, s, e) # windows_of qs)"
    by (simp add: assms(1) windows_of_append)
  have b: "get_policy_status_in periods d = ''Before '' @ phase"
    if "\<forall>w\<in>set (windows_of ps). \<not> in_window w d"
      and "to_datetime s - (to_datetime e - to_datetime s) - 1 \<le> d" and "d < to_datetime s" for d
    using first_match_at [OF before, of d] that by (simp add: status_first_match)
  have d: "get_policy_status_in periods (to_datetime s) = ''During '' @ phase"
    if "\<forall>w\<in>set (windows_of ps). \<not> in_window w (to_datetime s)"
    using first_match_at [OF during, of "to_datetime s"] that assms(2) by (simp add: status_first_match)
  from b [of "to_datetime s - 1"] b d assms(2) show ?thesis by auto
qed

text \<open>The same at Phase 2 of the script, which starts on 15 April 2016.\<close>

theorem before_window_half_open_witness:
  "get_policy_status (to_datetime (2016, 4, 15) - 1) = ''Before Phase 2'' \<and>
   get_policy_status (to_datetime (2016, 4, 15)) = ''During Phase 2'' \<and>
   get_policy_status (to_datetime (2016, 3, 30)) = ''Before Phase 2''"
proof -
  let ?ps = "[(''Phase 1'', (2016, 1, 1), (2016, 1, 15))]"
  let ?qs = "[(''Phase 3'', (2017, 11, 13), (2017, 11, 17)), (''Phase 4'', (2019, 11, 4), (2019, 11, 15))]"
  have p: "policy_periods = ?ps @ (''Phase 2'', (2016, 4, 15), (2016, 4, 30)) # ?qs"
    by (simp add: policy_periods_def)
  have le: "to_datetime (2016, 4, 15) \<le> to_datetime (2016, 4, 30)"
    by code_simp
  have h1: "\<forall>w\<in>set (windows_of ?ps). \<not> in_window w (to_datetime (2016, 4, 15) - 1)"
    by code_simp
  have h2: "\<forall>w\<in>set (windows_of ?ps). \<not> in_window w (to_datetime (2016, 4, 15))"
    by code_simp
  have h3: "(\<forall>w\<in>set (windows_of ?ps). \<not> in_window w (to_datetime (2016, 3, 30))) \<and>
      to_datetime (2016, 4, 15) - (to_datetime (2016, 4, 30) - to_datetime (2016, 4, 15)) - 1
        \<le> to_datetime (2016, 3, 30) \<and> to_datetime (2016, 3, 30) < to_datetime (2016, 4, 15)"
    by code_simp
  note t = before_window_half_open [OF p le]
  note a = t [THEN conjunct1, THEN mp, OF h1]
  note b = t [THEN conjunct2, THEN conjunct1, THEN mp, OF h2]
  note c = t [THEN conjunct2, THEN conjunct2, THEN spec, THEN mp, OF h3]
  from a b c show ?thesis
    by (simp only: get_policy_status_def append.simps) 
qed

text \<open>
  C5.  The Control window of a phase is the During window moved back by one calendar
  year: among the dates that no earlier-declared window claims, exactly those between
  \<open>start - 1 year\<close> and \<open>end - 1 year\<close> are labelled "Control" by the phase (for the
  others the loop goes on to the later phases); in particular \<open>end - 1 year\<close> is; and the
  move by a year keeps month and day and lowers the year by one (29 February becomes
  28 February), so it is a move by 366 days when a 29 February lies in between.
\<close>

theorem control_window_year_shift:
  assumes "periods = ps @ (phase, s, e) # qs"
    and "to_datetime s \<le> to_datetime e"
  shows "(\<forall>d. (\<forall>w\<in>set (windows_of ps @ [(During, phase, s, e), (Before, phase, s, e)]).
                 \<not> in_window w d) \<longrightarrow>
              (if minus_years (to_datetime s) 1 \<le> d \<and> d \<le> minus_years (to_datetime e) 1
               then get_policy_status_in periods d = ''Control '' @ phase
               else get_policy_status_in periods d = get_policy_status_in qs d)) \<and>
         ((\<forall>w\<in>set (windows_of ps @ [(During, phase, s, e), (Before, phase, s, e)]).
              \<not> in_window w (minus_years (to_datetime e) 1)) \<longrightarrow>
            get_policy_status_in periods (minus_years (to_datetime e) 1) = ''Control '' @ phase) \<and>
         (\<forall>y m d. valid_ymd (y, m, d) \<longrightarrow>
            minus_years (to_datetime (y, m, d)) 1 =
              to_datetime (y - 1, m, if m = 2 \<and> d = 29 then 28 else d))"
proof -
  have step: "(if minus_years (to_datetime s) 1 \<le> d \<and> d \<le> minus_years (to_datetime e) 1
               then get_policy_status_in periods d = ''Control '' @ phase
               else get_policy_status_in periods d = get_policy_status_in qs d)"
    if "\<forall>w\<in>set (windows_of ps @ [(During, phase, s, e), (Before, phase, s, e)]). \<not> in_window w d" for d
  proof -
    from that have "get_policy_status_in periods d = get_policy_status_in ((phase, s, e) # qs) d"
      unfolding assms(1) by (intro status_skip) simp
    moreover from that have "\<not> (to_datetime s \<le> d \<and> d \<le> to_datetime e)"
      and "\<not> (to_datetime s - (to_datetime e - to_datetime s) - 1 \<le> d \<and> d < to_datetime s)"
      by simp_all
    ultimately show ?thesis
      by (simp only: get_policy_status_in.simps Let_def if_False split: if_splits) blast+
  qed
  have "minus_years (to_datetime s) 1 \<le> minus_years (to_datetime e) 1"
    using assms(2) by (rule minus_years_mono)
  with step [of "minus_years (to_datetime e) 1"] minus_one_year_civil step show ?thesis
    by (intro conjI allI impI) simp_all
qed

text \<open>
  The same at Phase 2 of the script, whose Control window lies 366 days before its
  During window, because of 29 February 2016.
\<close>

theorem control_window_year_shift_witness:
  "get_policy_status (to_datetime (2015, 4, 30)) = ''Control Phase 2'' \<and>
   get_policy_status (to_datetime (2015, 4, 14)) = ''Normal Day'' \<and>
   minus_years (to_datetime (2016, 4, 30)) 1 = to_datetime (2015, 4, 30) \<and>
   to_datetime (2016, 4, 30) - minus_years (to_datetime (2016, 4, 30)) 1 = 366 \<and>
   minus_years (to_datetime (2016, 2, 29)) 1 = to_datetime (2015, 2, 28)"
proof -
  let ?ps = "[(''Phase 1'', (2016, 1, 1), (2016, 1, 15))]"
  let ?qs = "[(''Phase 3'', (2017, 11, 13), (2017, 11, 17)), (''Phase 4'', (2019, 11, 4), (2019, 11, 15))]"
  let ?early = "windows_of ?ps @ [(During, ''Phase 2'', (2016, 4, 15), (2016, 4, 30)),
                                    (Before, ''Phase 2'', (2016, 4, 15), (2016, 4, 30))]"
  have p: "policy_periods = ?ps @ (''Phase 2'', (2016, 4, 15), (2016, 4, 30)) # ?qs"
    by (simp add: policy_periods_def)
  have le: "to_datetime (2016, 4, 15) \<le> to_datetime (2016, 4, 30)"
    by code_simp
  have h1: "\<forall>w\<in>set ?early. \<not> in_window w (minus_years (to_datetime (2016, 4, 30)) 1)"
    by code_simp
  have h2: "\<forall>w\<in>set ?early. \<not> in_window w (to_datetime (2015, 4, 14))"
    by code_simp
  have v1: "valid_ymd (2016, 4, 30)" and v2: "valid_ymd (2016, 2, 29)"
    by code_simp+
  have out: "\<not> (minus_years (to_datetime (2016, 4, 15)) 1 \<le> to_datetime (2015, 4, 14) \<and>
      to_datetime (2015, 4, 14) \<le> minus_years (to_datetime (2016, 4, 30)) 1)"
    by code_simp
  have rest: "get_policy_status_in ?qs (to_datetime (2015, 4, 14)) = ''Normal Day''"
    by code_simp
  have days: "to_datetime (2016, 4, 30) - to_datetime (2015, 4, 30) = 366"
    by code_simp
  note t = control_window_year_shift [OF p le]
  note a = t [THEN conjunct2, THEN conjunct1, THEN mp, OF h1]
  note b = t [THEN conjunct1, THEN spec, THEN mp, OF h2]
  note c = t [THEN conjunct2, THEN conjunct2, THEN spec, THEN spec, THEN spec, THEN mp, OF v1]
  note d = t [THEN conjunct2, THEN conjunct2, THEN spec, THEN spec, THEN spec, THEN mp, OF v2]
  from c have c': "minus_years (to_datetime (2016, 4, 30)) 1 = to_datetime (2015, 4, 30)"
    by simp
  from d have d': "minus_years (to_datetime (2016, 2, 29)) 1 = to_datetime (2015, 2, 28)"
    by simp
  from b out rest have b': "get_policy_status_in policy_periods (to_datetime (2015, 4, 14)) = ''Normal Day''"
    by (simp only: if_False)
  from a b' c' d' days show ?thesis
    by (simp only: get_policy_status_def append.simps)
qed

text \<open>
  C10.  For the four phases of the script, the twelve windows are pairwise disjoint: a
  date lies in at most one of them, so the status of a date that lies in a window is the
  label of that window, whatever the order of the tests.
\<close>

theorem policy_windows_disjoint:
  "apart (map window_bounds (windows_of policy_periods)) \<and>
   length (filter (\<lambda>w. in_window w d) (windows_of policy_periods)) \<le> 1 \<and>
   (\<forall>w\<in>set (windows_of policy_periods). in_window w d \<longrightarrow> get_policy_status d = window_label w)"
proof -
  have one: "length (filter (\<lambda>w. in_window w d) (windows_of policy_periods)) \<le> 1"
    by (rule windows_at_most_one [OF policy_windows_apart])
  have "get_policy_status d = window_label w"
    if "w \<in> set (windows_of policy_periods)" "in_window w d" for w
    using find_unique [OF one that]
    by (simp add: get_policy_status_def status_first_match first_match_def)
  with one policy_windows_apart show ?thesis by blast
qed

text \<open>The same at 25 December 2015, which lies in the Before window of Phase 1.\<close>

theorem policy_windows_disjoint_witness:
  "length (filter (\<lambda>w. in_window w (to_datetime (2015, 12, 25))) (windows_of policy_periods)) \<le> 1 \<and>
   (Before, ''Phase 1'', (2016, 1, 1), (2016, 1, 15)) \<in> set (windows_of policy_periods) \<and>
   in_window (Before, ''Phase 1'', (2016, 1, 1), (2016, 1, 15)) (to_datetime (2015, 12, 25)) \<and>
   get_policy_status (to_datetime (2015, 12, 25)) = ''Before Phase 1''"
proof -
  have m: "(Before, ''Phase 1'', (2016, 1, 1), (2016, 1, 15)) \<in> set (windows_of policy_periods)"
    by (simp add: policy_periods_def)
  have i: "in_window (Before, ''Phase 1'', (2016, 1, 1), (2016, 1, 15)) (to_datetime (2015, 12, 25))"
    by code_simp
  note t = policy_windows_disjoint [of "to_datetime (2015, 12, 25)"]
  note a = t [THEN conjunct2, THEN conjunct1]
  note b = t [THEN conjunct2, THEN conjunct2, THEN bspec, OF m, THEN mp, OF i]
  from a b m i show ?thesis by (simp only: window_label.simps append.simps)
qed

section \<open>Cleaning\<close>

text \<open>
  C1, as the script has it.  Take the Delhi rows of a file in which no column other than
  the two pollutant columns has an empty cell.  After the forward fill of \<open>pm25\<close> and
  of \<open>no2\<close>, each with the last value seen above, the rows that are dropped are exactly
  the rows that still miss a pollutant value, and they are exactly the rows before the
  first row at which both pollutants have been observed; every row from there on is kept.
  The fill leaves a cell that holds a value as it is, so a kept row has its own observed
  values and, in the cells that were empty, the last value seen above.  The frame that
  \<^verbatim>\<open>load_and_prepare_real_data\<close> returns is this cleaned frame with the status of each
  date added.
\<close>

theorem clean_drops_leading_gap:
  assumes "rows = filter (\<lambda>r. City r = ''Delhi'') df"
    and "filled = ffill_no2 (ffill_pm25 rows)"
    and "\<forall>r\<in>set rows. None \<notin> set (others r)"
  shows "clean df = drop (max (leading_gap (map pm25 rows)) (leading_gap (map no2 rows))) filled \<and>
         clean df = filter (\<lambda>r. pm25 r \<noteq> None \<and> no2 r \<noteq> None) filled \<and>
         length filled = length rows \<and>
         (\<forall>i<length rows.
            filled ! i = (rows ! i)\<lparr>pm25 := last_seen (take (Suc i) (map pm25 rows)),
                                    no2 := last_seen (take (Suc i) (map no2 rows))\<rparr> \<and>
            (pm25 (rows ! i) \<noteq> None \<longrightarrow> pm25 (filled ! i) = pm25 (rows ! i)) \<and>
            (no2 (rows ! i) \<noteq> None \<longrightarrow> no2 (filled ! i) = no2 (rows ! i))) \<and>
         (\<forall>fs filepath. fs filepath = Some df \<longrightarrow>
            snd (load_and_prepare_real_data fs filepath) = Inr (label_rows (clean df)))"
proof -
  let ?k = "max (leading_gap (map pm25 rows)) (leading_gap (map no2 rows))"
  have len: "length filled = length rows"
    by (simp add: assms(2) length_ffill_no2 length_ffill_pm25)
  have nth: "filled ! i = (rows ! i)\<lparr>pm25 := last_seen (take (Suc i) (map pm25 rows)),
                                    no2 := last_seen (take (Suc i) (map no2 rows))\<rparr>"
    if "i < length rows" for i
    using that by (simp add: assms(2) filled_nth)
  have others: "others (filled ! i) = others (rows ! i)" if "i < length rows" for i
    using that by (simp add: nth)
  have nan: "\<not> has_nan (filled ! i) \<longleftrightarrow> ?k \<le> i" if "i < length filled" for i
  proof -
    from that have i: "i < length rows" by (simp add: len)
    then have "None \<notin> set (others (rows ! i))" using assms(3) by simp
    with has_nan_filled [OF i] show ?thesis unfolding assms(2) by auto
  qed
  have clean: "clean df = filter (\<lambda>r. \<not> has_nan r) filled"
    by (simp add: clean_def dropna_def assms(1,2))
  have drop: "clean df = drop ?k filled"
    unfolding clean by (rule filter_eq_drop) (use nan in blast)
  have "\<forall>r\<in>set filled. None \<notin> set (others r)"
    using assms(3) others by (metis in_set_conv_nth len nth_mem)
  then have tracked: "clean df = filter (\<lambda>r. pm25 r \<noteq> None \<and> no2 r \<noteq> None) filled"
    unfolding clean by (intro filter_cong) (auto simp: has_nan_def)
  have own: "(pm25 (rows ! i) \<noteq> None \<longrightarrow> pm25 (filled ! i) = pm25 (rows ! i)) \<and>
             (no2 (rows ! i) \<noteq> None \<longrightarrow> no2 (filled ! i) = no2 (rows ! i))"
    if "i < length rows" for i
    using that last_seen_own [of i "map pm25 rows"] last_seen_own [of i "map no2 rows"]
    by (auto simp: nth)
  from drop tracked len nth own load_and_prepare_clean show ?thesis
    by (intro conjI allI impI) simp_all
qed

text \<open>
  The same on \<open>sample_rows\<close>: the first Delhi row has no \<open>pm25\<close> and is dropped, the
  two others are kept, the later one with the \<open>pm25\<close> value carried down.
\<close>

theorem clean_drops_leading_gap_witness:
  "clean sample_rows =
     [\<lparr>City = ''Delhi'', Date = to_datetime (2015, 1, 2), pm25 = Some 100, no2 = Some 30, others = []\<rparr>,
      \<lparr>City = ''Delhi'', Date = to_datetime (2015, 1, 3), pm25 = Some 100, no2 = Some 32, others = []\<rparr>]"
proof -
  let ?rows = "filter (\<lambda>r. City r = ''Delhi'') sample_rows"
  let ?filled = "ffill_no2 (ffill_pm25 ?rows)"
  have h: "\<forall>r\<in>set ?rows. None \<notin> set (others r)"
    by (simp add: sample_rows_def)
  note t = clean_drops_leading_gap [OF refl refl h]
  have "drop (max (leading_gap (map pm25 ?rows)) (leading_gap (map no2 ?rows))) ?filled =
     [\<lparr>City = ''Delhi'', Date = to_datetime (2015, 1, 2), pm25 = Some 100, no2 = Some 30, others = []\<rparr>,
      \<lparr>City = ''Delhi'', Date = to_datetime (2015, 1, 3), pm25 = Some 100, no2 = Some 32, others = []\<rparr>]"
    by (simp add: sample_rows_def leading_gap_def ffill_no2_def ffill_pm25_def ffill_def)
  with t [THEN conjunct1] show ?thesis by simp
qed

text \<open>
  C1 as it is worded does not hold.  In \<open>gap_rows\<close> the first row of \<open>pm25\<close> is empty
  and the second holds the first observed value, 100; that row is dropped all the same,
  because its \<open>no2\<close> is still empty.  In \<open>untracked_rows\<close> both pollutants have been
  observed from the second row on and the third row holds its own values of both, yet
  it is dropped, because a column that is not forward-filled is empty there.
\<close>

theorem first_observed_row_dropped:
  "(leading_gap (map pm25 gap_rows) = 1 \<and> pm25 (gap_rows ! 1) = Some 100 \<and>
    clean gap_rows = [gap_rows ! 2]) \<and>
   (leading_gap (map pm25 untracked_rows) = 1 \<and> leading_gap (map no2 untracked_rows) = 0 \<and>
    pm25 (untracked_rows ! 2) = Some 110 \<and> no2 (untracked_rows ! 2) = Some 32 \<and>
    clean untracked_rows = [untracked_rows ! 1])"
  by (simp add: gap_rows_def untracked_rows_def leading_gap_def clean_def dropna_def has_nan_def
      ffill_no2_def ffill_pm25_def ffill_def)

section \<open>The run\<close>

text \<open>
  C2.  When the input file is absent, the script prints its diagnostic lines and the
  process ends at once, without a second attempt to read.  The exit status is claimed to
  be other than zero; the script ends with status 0, which is what \<^verbatim>\<open>sys.exit()\<close>
  without an argument gives.
\<close>

theorem missing_file_exit_status:
  "main (\<lambda>path. None) mannwhitneyu =
     ([Loading ''data/city_day.csv'', File_not_found ''data/city_day.csv'', Hint_data_subfolder], 0)"
  by (simp add: main_def load_and_prepare_real_data_def)

text \<open>
  C7.  When the During sample or the Control sample of the phase is empty, the analysis
  step prints its header and the line that there is not enough data, and returns: the
  frame and the record of calls to the rank-sum test are as before, so the test was not
  called and nothing was raised.  The claim goes on to say that the run continues and
  that the condition is not fatal.  In the script the next step of the main block,
  \<^verbatim>\<open>create_visualizations\<close>, has no such check: it prints its first line and then takes
  \<^verbatim>\<open>.iloc[0]\<close> of the mean of the period that has no row, which raises \<^verbatim>\<open>IndexError\<close>,
  and the run ends there with exit status 1.
\<close>

theorem empty_sample_reported:
  "((during_data (frame s) phase = [] \<or> control_data (frame s) phase = []) \<longrightarrow>
      perform_statistical_analysis mannwhitneyu phase s =
        s\<lparr>console := console s @ [Analysis_header phase, Not_enough_data]\<rparr>) \<and>
   (\<forall>df. fs ''data/city_day.csv'' = Some df \<and>
        (during_data (label_rows (clean df)) ''Phase 1'' = [] \<or>
         control_data (label_rows (clean df)) ''Phase 1'' = []) \<longrightarrow>
      main fs mannwhitneyu =
        ([Loading ''data/city_day.csv'', Found_rows (length (filter (\<lambda>r. City r = ''Delhi'') df)),
          Preparation_complete, Analysis_header ''Phase 1'', Not_enough_data,
          Generating_visualizations], 1)) \<and>
   (\<forall>s'. during_data (frame s') ''Phase 1'' = [] \<or> control_data (frame s') ''Phase 1'' = [] \<longrightarrow>
      fst (create_visualizations ''Phase 1'' s') = Inl IndexError)"
proof (intro conjI impI allI)
  assume "during_data (frame s) phase = [] \<or> control_data (frame s) phase = []"
  then show "perform_statistical_analysis mannwhitneyu phase s =
        s\<lparr>console := console s @ [Analysis_header phase, Not_enough_data]\<rparr>"
    by (rule analysis_empty)
next
  fix df
  assume "fs ''data/city_day.csv'' = Some df \<and>
        (during_data (label_rows (clean df)) ''Phase 1'' = [] \<or>
         control_data (label_rows (clean df)) ''Phase 1'' = [])"
  then show "main fs mannwhitneyu =
        ([Loading ''data/city_day.csv'', Found_rows (length (filter (\<lambda>r. City r = ''Delhi'') df)),
          Preparation_complete, Analysis_header ''Phase 1'', Not_enough_data,
          Generating_visualizations], 1)"
    by (simp add: main_empty_sample [of fs df mannwhitneyu])
next
  fix s' :: session
  assume "during_data (frame s') ''Phase 1'' = [] \<or> control_data (frame s') ''Phase 1'' = []"
  then show "fst (create_visualizations ''Phase 1'' s') = Inl IndexError"
    by (auto simp: create_visualizations_eq [OF phase_1_configured])
qed

text \<open>
  The same on the example session, which has no row of Phase 2, and on the file
  \<open>no_control_rows\<close>: two rows are found, the analysis step reports that there is not
  enough data, the next step starts, and the run ends with status 1.
\<close>

theorem empty_sample_reported_witness:
  "perform_statistical_analysis (\<lambda>x y. (Some 0, Some 0.01)) ''Phase 2'' demo_session =
     demo_session\<lparr>console := [Analysis_header ''Phase 2'', Not_enough_data]\<rparr> \<and>
   control_data (label_rows (clean no_control_rows)) ''Phase 1'' = [] \<and>
   main (\<lambda>path. Some no_control_rows) (\<lambda>x y. (Some 0, Some 0.01)) =
     ([Loading ''data/city_day.csv'', Found_rows 2, Preparation_complete,
       Analysis_header ''Phase 1'', Not_enough_data, Generating_visualizations], 1) \<and>
   fst (create_visualizations ''Phase 1''
          \<lparr>frame = label_rows (clean no_control_rows), console = [], test_calls = []\<rparr>) =
     Inl IndexError"
proof -
  have e: "during_data (frame demo_session) ''Phase 2'' = [] \<or>
           control_data (frame demo_session) ''Phase 2'' = []"
    by (simp add: demo_session_def demo_frame_def during_data_def)
  have c: "control_data (label_rows (clean no_control_rows)) ''Phase 1'' = []"
    by (simp add: no_control_prepared control_data_def)
  have f: "(\<lambda>path. Some no_control_rows) ''data/city_day.csv'' = Some no_control_rows \<and>
        (during_data (label_rows (clean no_control_rows)) ''Phase 1'' = [] \<or>
         control_data (label_rows (clean no_control_rows)) ''Phase 1'' = [])"
    using c by simp
  have g: "during_data (frame \<lparr>frame = label_rows (clean no_control_rows), console = [],
              test_calls = []\<rparr>) ''Phase 1'' = [] \<or>
           control_data (frame \<lparr>frame = label_rows (clean no_control_rows), console = [],
              test_calls = []\<rparr>) ''Phase 1'' = []"
    using c by simp
  have n: "length (filter (\<lambda>r. City r = ''Delhi'') no_control_rows) = 2"
    by (simp add: no_control_rows_def)
  note t = empty_sample_reported [of demo_session "''Phase 2''" "\<lambda>x y. (Some 0, Some 0.01)"
      "\<lambda>path. Some no_control_rows"]
  note a = t [THEN conjunct1, THEN mp, OF e]
  note b = t [THEN conjunct2, THEN conjunct1, THEN spec, THEN mp, OF f]
  note d = t [THEN conjunct2, THEN conjunct2, THEN spec, THEN mp, OF g]
  from a b c d n show ?thesis by (simp add: demo_session_def)
qed

text \<open>
  C8.  When both samples have rows, a p-value below 0.05 gives the line that the
  reduction is significant and a p-value of 0.05 or more the line that it is not; in both
  cases the mean of each of the two samples is printed, which for a sample without
  missing values is the sum divided by the number of values.
\<close>

theorem decision_rule:
  assumes "during_data (frame s) phase \<noteq> []" and "control_data (frame s) phase \<noteq> []"
    and "mannwhitneyu (during_data (frame s) phase) (control_data (frame s) phase) = (stat, p_value)"
  shows "(\<forall>v. p_value = Some v \<and> v < 0.05 \<longrightarrow>
            console (perform_statistical_analysis mannwhitneyu phase s) =
              console s @ [Analysis_header phase, Comparing phase,
                Mean_during (series_mean (during_data (frame s) phase)),
                Mean_control (series_mean (control_data (frame s) phase)),
                P_value p_value, Result_significant]) \<and>
         (\<forall>v. p_value = Some v \<and> 0.05 \<le> v \<longrightarrow>
            console (perform_statistical_analysis mannwhitneyu phase s) =
              console s @ [Analysis_header phase, Comparing phase,
                Mean_during (series_mean (during_data (frame s) phase)),
                Mean_control (series_mean (control_data (frame s) phase)),
                P_value p_value, Result_not_significant]) \<and>
         (\<forall>vs. vs \<noteq> [] \<longrightarrow> series_mean (map Some vs) = Some (sum_list vs / real (length vs)))"
  using assms series_mean_present
  by (auto simp: analysis_nonempty float_less_def)

text \<open>The same on the example session, for a test that answers 0.01 and one that answers 0.5.\<close>

theorem decision_rule_witness:
  "console (perform_statistical_analysis (\<lambda>x y. (Some 0, Some 0.01)) ''Phase 1'' demo_session) =
     [Analysis_header ''Phase 1'', Comparing ''Phase 1'', Mean_during (Some 50),
      Mean_control (Some 100), P_value (Some 0.01), Result_significant] \<and>
   console (perform_statistical_analysis (\<lambda>x y. (Some 3, Some 0.5)) ''Phase 1'' demo_session) =
     [Analysis_header ''Phase 1'', Comparing ''Phase 1'', Mean_during (Some 50),
      Mean_control (Some 100), P_value (Some 0.5), Result_not_significant] \<and>
   series_mean (map Some [40, 60]) = Some (sum_list [40, 60] / real (length [40 :: real, 60]))"
proof -
  have d: "during_data (frame demo_session) ''Phase 1'' \<noteq> []"
    by (simp add: demo_during)
  have c: "control_data (frame demo_session) ''Phase 1'' \<noteq> []"
    by (simp add: demo_control)
  have low: "(\<lambda>x y. (Some 0, Some (0.01::real))) (during_data (frame demo_session) ''Phase 1'')
      (control_data (frame demo_session) ''Phase 1'') = (Some (0::real), Some 0.01)"
    by simp
  have high: "(\<lambda>x y. (Some 3, Some (0.5::real))) (during_data (frame demo_session) ''Phase 1'')
      (control_data (frame demo_session) ''Phase 1'') = (Some (3::real), Some 0.5)"
    by simp
  note t1 = decision_rule [of demo_session "''Phase 1''" "\<lambda>x y. (Some 0, Some 0.01)", OF d c low]
  note t2 = decision_rule [of demo_session "''Phase 1''" "\<lambda>x y. (Some 3, Some 0.5)", OF d c high]
  have a: "console (perform_statistical_analysis (\<lambda>x y. (Some 0, Some 0.01)) ''Phase 1'' demo_session) =
     console demo_session @ [Analysis_header ''Phase 1'', Comparing ''Phase 1'',
       Mean_during (series_mean (during_data (frame demo_session) ''Phase 1'')),
       Mean_control (series_mean (control_data (frame demo_session) ''Phase 1'')),
       P_value (Some 0.01), Result_significant]"
    by (rule t1 [THEN conjunct1, THEN spec [where x = "0.01"], THEN mp]) simp
  have b: "console (perform_statistical_analysis (\<lambda>x y. (Some 3, Some 0.5)) ''Phase 1'' demo_session) =
     console demo_session @ [Analysis_header ''Phase 1'', Comparing ''Phase 1'',
       Mean_during (series_mean (during_data (frame demo_session) ''Phase 1'')),
       Mean_control (series_mean (control_data (frame demo_session) ''Phase 1'')),
       P_value (Some 0.5), Result_not_significant]"
    by (rule t2 [THEN conjunct2, THEN conjunct1, THEN spec [where x = "0.5"], THEN mp]) simp
  have m: "series_mean (map Some [40, 60]) = Some (sum_list [40, 60] / real (length [40 :: real, 60]))"
    by (rule t1 [THEN conjunct2, THEN conjunct2, THEN spec [where x = "[40, 60]"], THEN mp]) simp
  have "console demo_session = []"
    by (simp add: demo_session_def)
  with a b m show ?thesis
    by (simp add: demo_during demo_control demo_means)
qed

text \<open>
  C3.  For a configured phase whose During sample has mean 50 and whose Control sample
  has mean 100, and a rank-sum test that gives the p-value 0.01, the analysis step
  prints the two means, the p-value and the line that the reduction is significant, and
  the percent change that the first chart is annotated with is -50.  That number is
  computed as \<open>((during_mean - control_mean) / control_mean) * 100\<close>: on any frame
  whose two samples have means and whose Control mean is not zero, the percent change is
  the value of this formula at the two means.
\<close>

theorem significant_fifty_percent:
  assumes "phase \<in> set (map fst policy_periods)"
    and "series_mean (during_data (frame s) phase) = Some 50"
    and "series_mean (control_data (frame s) phase) = Some 100"
    and "snd (mannwhitneyu (during_data (frame s) phase) (control_data (frame s) phase)) = Some 0.01"
  shows "console (perform_statistical_analysis mannwhitneyu phase s) =
           console s @ [Analysis_header phase, Comparing phase, Mean_during (Some 50),
                        Mean_control (Some 100), P_value (Some 0.01), Result_significant] \<and>
         fst (create_visualizations phase (perform_statistical_analysis mannwhitneyu phase s)) =
           Inr (Some (- 50)) \<and>
         (\<forall>s' during_mean control_mean.
            series_mean (during_data (frame s') phase) = Some during_mean \<and>
            series_mean (control_data (frame s') phase) = Some control_mean \<and>
            control_mean \<noteq> 0 \<longrightarrow>
            fst (create_visualizations phase s') =
              Inr (Some (((during_mean - control_mean) / control_mean) * 100)))"
proof -
  have formula: "fst (create_visualizations phase s') =
      Inr (Some (((during_mean - control_mean) / control_mean) * 100))"
    if "series_mean (during_data (frame s') phase) = Some during_mean"
      and "series_mean (control_data (frame s') phase) = Some control_mean"
      and "control_mean \<noteq> 0" for s' :: session and during_mean control_mean
  proof -
    have "during_data (frame s') phase \<noteq> []" "control_data (frame s') phase \<noteq> []"
      using that(1,2) by (auto dest: series_mean_Some_nonempty)
    then show ?thesis
      by (simp add: create_visualizations_eq [OF assms(1)] that pct_change_def)
  qed
  have ne: "during_data (frame s) phase \<noteq> []" "control_data (frame s) phase \<noteq> []"
    using assms(2,3) by (auto dest: series_mean_Some_nonempty)
  have "console (perform_statistical_analysis mannwhitneyu phase s) =
           console s @ [Analysis_header phase, Comparing phase, Mean_during (Some 50),
                        Mean_control (Some 100), P_value (Some 0.01), Result_significant]"
    by (simp add: analysis_nonempty [OF ne] assms(2,3,4) float_less_def)
  moreover have "fst (create_visualizations phase (perform_statistical_analysis mannwhitneyu phase s)) =
           Inr (Some (- 50))"
    using formula [of "perform_statistical_analysis mannwhitneyu phase s" 50 100]
    by (simp add: frame_analysis assms(2,3))
  ultimately show ?thesis using formula by blast
qed

text \<open>
  The same on the example session, with the means 50 and 100, and the formula on the
  example frame without its first row, where the Control mean is 110.
\<close>

theorem significant_fifty_percent_witness:
  "console (perform_statistical_analysis (\<lambda>x y. (Some 0, Some 0.01)) ''Phase 1'' demo_session) =
     [Analysis_header ''Phase 1'', Comparing ''Phase 1'', Mean_during (Some 50),
      Mean_control (Some 100), P_value (Some 0.01), Result_significant] \<and>
   fst (create_visualizations ''Phase 1''
          (perform_statistical_analysis (\<lambda>x y. (Some 0, Some 0.01)) ''Phase 1'' demo_session)) =
     Inr (Some (- 50)) \<and>
   fst (create_visualizations ''Phase 1'' demo_session) = Inr (Some (((50 - 100) / 100) * 100)) \<and>
   fst (create_visualizations ''Phase 1'' \<lparr>frame = tl demo_frame, console = [], test_calls = []\<rparr>) =
     Inr (Some (((50 - 110) / 110) * 100))"
proof -
  let ?tail = "\<lparr>frame = tl demo_frame, console = [], test_calls = []\<rparr>"
  have h1: "''Phase 1'' \<in> set (map fst policy_periods)"
    by (simp add: policy_periods_def)
  have h2: "series_mean (during_data (frame demo_session) ''Phase 1'') = Some 50"
    by (simp add: demo_during demo_means)
  have h3: "series_mean (control_data (frame demo_session) ''Phase 1'') = Some 100"
    by (simp add: demo_control demo_means)
  have h4: "snd ((\<lambda>x y. (Some 0, Some 0.01)) (during_data (frame demo_session) ''Phase 1'')
      (control_data (frame demo_session) ''Phase 1'')) = Some (0.01::real)"
    by simp
  have p1: "series_mean (during_data (frame demo_session) ''Phase 1'') = Some 50 \<and>
      series_mean (control_data (frame demo_session) ''Phase 1'') = Some 100 \<and> (100::real) \<noteq> 0"
    using h2 h3 by simp
  have p2: "series_mean (during_data (frame ?tail) ''Phase 1'') = Some 50 \<and>
      series_mean (control_data (frame ?tail) ''Phase 1'') = Some 110 \<and> (110::real) \<noteq> 0"
    by (simp add: demo_tail demo_means)
  note t = significant_fifty_percent [of "''Phase 1''" demo_session "\<lambda>x y. (Some 0, Some 0.01)",
      OF h1 h2 h3 h4]
  note f1 = t [THEN conjunct2, THEN conjunct2, THEN spec, THEN spec, THEN spec, THEN mp, OF p1]
  note f2 = t [THEN conjunct2, THEN conjunct2, THEN spec, THEN spec, THEN spec, THEN mp, OF p2]
  have "console demo_session = []"
    by (simp add: demo_session_def)
  with t f1 f2 show ?thesis by simp
qed

text \<open>
  C9.  The analysis step does not change the frame it is given: after the call every
  row and every column, \<open>policy_status\<close> included, is as before.  What it prints is
  determined by the frame and the phase name (and the rank-sum test in use): it is what
  the step prints when started on the same frame with an empty console.
\<close>

theorem analysis_leaves_frame:
  "frame (perform_statistical_analysis mannwhitneyu phase s) = frame s \<and>
   console (perform_statistical_analysis mannwhitneyu phase s) =
     console s @ console (perform_statistical_analysis mannwhitneyu phase
                            \<lparr>frame = frame s, console = [], test_calls = []\<rparr>)"
  by (cases "during_data (frame s) phase = [] \<or> control_data (frame s) phase = []")
     (simp_all add: analysis_empty analysis_nonempty)

end
